(* ===== verification/Prelude.thy ===== *)
theory Prelude
  imports Main "HOL-Library.Word"
begin

text \<open>
  Shared vocabulary of the development: the machine types of the Ethereum side
  (160-bit addresses, 256-bit unsigned integers, bytes), the errors that the
  scripts can raise, the result type that carries them, a few facts about
  JavaScript strings as the scripts build them, and positional digit lists
  (big-endian, any base) with their round-trip lemmas.  The ABI encoder
  (base 256), the address printer (base 16) and the CLI re-parsing of printed
  addresses all rest on the digit lemmas proved here.
\<close>

section \<open>Machine types\<close>

type_synonym address = "160 word"
type_synonym uint = "256 word"
type_synonym byte = "8 word"
type_synonym bytes = "byte list"
type_synonym txhash = nat

named_theorems model_simps "evaluation rules of the model's operations, for closed instances"

section \<open>Errors\<close>

text \<open>
  Every failure the scripts can meet, whether raised by the script itself
  (a JavaScript TypeError on an undefined lookup), by the deployment framework,
  by the contract-binding library or by the ledger (a revert), is a constructor
  here; a fallible operation returns \<open>error + 'a\<close> with \<open>Inl\<close> the error.
\<close>

datatype error =
    UnknownChainId nat          \<comment> \<open>\<open>networkConfig[chainId]\<close> is undefined: TypeError on \<open>['name']\<close>\<close>
  | NoDeployment string         \<comment> \<open>\<open>deployments.get(name)\<close>: no deployment record\<close>
  | NoArtifact string           \<comment> \<open>\<open>getContractFactory(name)\<close>: artifact not compiled\<close>
  | NoSigner                    \<comment> \<open>no account to sign or send with\<close>
  | InvalidAddress string       \<comment> \<open>the \<open>--contract\<close> argument is not an address\<close>
  | NotAFunction string         \<comment> \<open>\<open>contract.f\<close> is undefined: the ABI has no function \<open>f\<close>\<close>
  | AbiOutOfBounds int          \<comment> \<open>\<open>defaultAbiCoder.encode(['uint'], [v])\<close> with \<open>v\<close> out of range\<close>
  | UnsafeInteger nat           \<comment> \<open>\<open>arrayify(n)\<close> of a number beyond \<open>2^53\<close>\<close>
  | Reverted address            \<comment> \<open>the contract at the address reverted\<close>
  | CallException address       \<comment> \<open>a read call failed or returned no data\<close>
  | UnpredictableGas address    \<comment> \<open>gas estimation of a transaction reverted\<close>
  | AddressSpaceFull            \<comment> \<open>no fresh contract address is left\<close>
  | UnknownTask string          \<comment> \<open>the CLI names no registered task\<close>
  | MissingParam string         \<comment> \<open>a required task parameter was not given\<close>
  | BadCommandLine              \<comment> \<open>the command line is not \<open>npx hardhat task --p v ...\<close>\<close>
  | OtherNetwork string         \<comment> \<open>\<open>--network\<close> names a network other than the modelled one\<close>

type_synonym 'a result = "error + 'a"

section \<open>Positional digits\<close>

text \<open>
  \<open>digits_be b n v\<close> is the \<open>n\<close> lowest base-\<open>b\<close> digits of \<open>v\<close>, most significant
  first; \<open>val_be b ds\<close> reads a digit list back.  Both the 32-byte big-endian ABI
  word and the 40-digit hexadecimal address are instances.
\<close>

fun digits_be :: "nat \<Rightarrow> nat \<Rightarrow> nat \<Rightarrow> nat list" where
  "digits_be b 0 v = []"
| "digits_be b (Suc n) v = digits_be b n (v div b) @ [v mod b]"

definition val_be :: "nat \<Rightarrow> nat list \<Rightarrow> nat" where
  "val_be b ds = foldl (\<lambda>acc d. acc * b + d) 0 ds"

section \<open>Strings\<close>

text \<open>\<open>console.log(a, b, ...)\<close> joins its arguments with one space.\<close>

fun join_sp :: "string list \<Rightarrow> string" where
  "join_sp [] = []"
| "join_sp [s] = s"
| "join_sp (s # t # ss) = s @ '' '' @ join_sp (t # ss)"

text \<open>Joining with a separator character (\<open>Array.prototype.join\<close>).\<close>

fun join_on :: "char \<Rightarrow> string list \<Rightarrow> string" where
  "join_on c [] = []"
| "join_on c [s] = s"
| "join_on c (s # t # ss) = s @ [c] @ join_on c (t # ss)"

text \<open>Splitting at a separator, dropping empty pieces: a shell splits a command
  line at spaces, hardhat-deploy splits \<open>--tags\<close> at commas.\<close>

fun split_acc :: "char \<Rightarrow> string \<Rightarrow> string \<Rightarrow> string list" where
  "split_acc sep cur [] = (if cur = [] then [] else [cur])"
| "split_acc sep cur (c # cs) =
     (if c = sep then (if cur = [] then split_acc sep [] cs else cur # split_acc sep [] cs)
      else split_acc sep (cur @ [c]) cs)"

definition shell_words :: "string \<Rightarrow> string list" where
  "shell_words s = split_acc (CHR '' '') [] s"

section \<open>Digit and string lemmas\<close>

lemma val_be_Nil [simp]: "val_be b [] = 0"
  by (simp add: val_be_def)

lemma val_be_snoc [simp]: "val_be b (ds @ [d]) = val_be b ds * b + d"
  by (simp add: val_be_def)

lemma digits_be_numeral [model_simps]:
  "digits_be b (numeral k) v = digits_be b (pred_numeral k) (v div b) @ [v mod b]"
  by (simp add: numeral_eq_Suc)

lemma length_digits_be [simp]: "length (digits_be b n v) = n"
  by (induction n arbitrary: v) auto

lemma digits_be_less: "0 < b \<Longrightarrow> d \<in> set (digits_be b n v) \<Longrightarrow> d < b"
  by (induction n arbitrary: v) auto

lemma val_be_digits_be: "val_be b (digits_be b n v) = v mod b ^ n"
proof (induction n arbitrary: v)
  case 0
  then show ?case by simp
next
  case (Suc n)
  have "v mod (b * b ^ n) = b * (v div b mod b ^ n) + v mod b"
    by (rule mod_mult2_eq)
  with Suc show ?case by (simp add: mult.commute)
qed

lemma val_be_less: "(\<forall>d \<in> set ds. d < b) \<Longrightarrow> val_be b ds < b ^ length ds"
proof (induction ds rule: rev_induct)
  case Nil
  then show ?case by simp
next
  case (snoc d ds)
  then have "val_be b ds + 1 \<le> b ^ length ds" by simp
  then have "(val_be b ds + 1) * b \<le> b ^ length ds * b" by (rule mult_right_mono) simp
  with snoc.prems show ?case by (simp add: algebra_simps)
qed

lemma digits_be_val_be:
  "(\<forall>d \<in> set ds. d < b) \<Longrightarrow> digits_be b (length ds) (val_be b ds) = ds"
proof (induction ds rule: rev_induct)
  case Nil
  then show ?case by simp
next
  case (snoc d ds)
  then have "d < b" by simp
  then have "(val_be b ds * b + d) div b = val_be b ds" and "(val_be b ds * b + d) mod b = d"
    by simp_all
  with snoc show ?case by simp
qed

lemma digits_be_inj:
  assumes "v < b ^ n" and "w < b ^ n" and "digits_be b n v = digits_be b n w"
  shows "v = w"
proof -
  have "v = val_be b (digits_be b n v)" using assms(1) by (simp add: val_be_digits_be)
  also have "\<dots> = val_be b (digits_be b n w)" using assms(3) by simp
  also have "\<dots> = w" using assms(2) by (simp add: val_be_digits_be)
  finally show ?thesis .
qed

section \<open>Maps\<close>

lemma dom_fun_upd_present [simp]: "m k = Some v \<Longrightarrow> dom (m(k \<mapsto> w)) = dom m"
  by auto

lemma split_acc_append_word:
  "sep \<notin> set w \<Longrightarrow> split_acc sep cur (w @ rest) = split_acc sep (cur @ w) rest"
  by (induction w arbitrary: cur) auto

lemma split_acc_join_on:
  "\<forall>w \<in> set ws. w \<noteq> [] \<and> sep \<notin> set w \<Longrightarrow> split_acc sep [] (join_on sep ws) = ws"
proof (induction sep ws rule: join_on.induct)
  case (1 c)
  then show ?case by simp
next
  case (2 c s)
  then show ?case using split_acc_append_word [of c s "[]" "[]"] by simp
next
  case (3 c s t ss)
  then have "split_acc c [] (s @ [c] @ join_on c (t # ss)) = split_acc c s ([c] @ join_on c (t # ss))"
    using split_acc_append_word [of c s "[]"] by simp
  also have "\<dots> = s # split_acc c [] (join_on c (t # ss))"
    using "3.prems" by simp
  finally show ?case using 3 by simp
qed

lemma join_sp_join_on: "join_sp ws = join_on (CHR '' '') ws"
  by (induction ws rule: join_sp.induct) simp_all

lemma split_acc_join_sp:
  "\<forall>w \<in> set ws. w \<noteq> [] \<and> CHR '' '' \<notin> set w \<Longrightarrow> split_acc (CHR '' '') [] (join_sp ws) = ws"
  by (simp add: join_sp_join_on split_acc_join_on)

lemma set_join_on: "set (join_on c ws) \<subseteq> insert c (\<Union>w \<in> set ws. set w)"
  by (induction ws rule: join_on.induct) auto

lemma join_on_nonempty: "ws \<noteq> [] \<Longrightarrow> hd ws \<noteq> [] \<Longrightarrow> join_on c ws \<noteq> []"
  by (induction ws rule: join_on.induct) auto

lemma shell_words_join_sp:
  "\<forall>w \<in> set ws. w \<noteq> [] \<and> CHR '' '' \<notin> set w \<Longrightarrow> shell_words (join_sp ws) = ws"
  by (simp add: shell_words_def split_acc_join_sp)

end
