(* ===== verification/Ledger.thy ===== *)
theory Ledger
  imports Prelude
begin

text \<open>
  The ledger the scripts talk to.  Nothing here is code of the repository: the
  Counter and KeeperSimulation contracts, the transaction pool and mining are
  external collaborators, modelled from the specification (sections 3, 4 and 6)
  so that the scripts have something to call.  A chain holds the deployed
  contracts, the timestamp of the block being built, the pool of submitted but
  unmined transactions, the receipts of mined ones, and two counters that
  allocate transaction hashes and contract addresses.

  The operations are \<open>exec_call\<close> (run one contract method against the mined
  state), \<open>submit\<close> (put a transaction in the pool), \<open>mine\<close> (run the pool in
  order), \<open>advance_time\<close> and \<open>create_contract\<close>; \<open>env_apply\<close> is one move of the
  world outside the scripts.  \<open>chain_step\<close> collects every move, and
  \<open>chain_inv\<close> is proved of every chain reachable from genesis.
\<close>

section \<open>Contracts\<close>

text \<open>
  Counter: an upkeep is due when more than \<open>interval\<close> seconds have passed since
  the last one; \<open>performUpkeep\<close> records the time and counts.  Arithmetic is
  on \<open>uint256\<close> without overflow checks, so \<open>block.timestamp - lastTimeStamp\<close>
  would wrap if the stored time were ahead of the block; the invariant shows it
  never is.
\<close>

record counter_st =
  counter :: uint
  interval :: uint
  lastTimeStamp :: uint

definition counter_constructor :: "uint \<Rightarrow> uint \<Rightarrow> counter_st" where
  "counter_constructor now updateInterval =
     \<lparr>counter = 0, interval = updateInterval, lastTimeStamp = now\<rparr>"

definition counter_checkUpkeep :: "uint \<Rightarrow> counter_st \<Rightarrow> bool" where
  "counter_checkUpkeep now c = (interval c < now - lastTimeStamp c)"

definition counter_performUpkeep :: "uint \<Rightarrow> counter_st \<Rightarrow> counter_st" where
  "counter_performUpkeep now c = c\<lparr>lastTimeStamp := now, counter := counter c + 1\<rparr>"

text \<open>
  KeeperSimulation: bound at construction to a Counter address; its
  \<open>checkUpkeep()\<close> asks that Counter and stores the answer, which
  \<open>getUpkeepNeeded()\<close> returns.
\<close>

record sim_st =
  sim_counter :: address
  upkeepNeeded :: bool

definition sim_constructor :: "address \<Rightarrow> sim_st" where
  "sim_constructor counterAddress = \<lparr>sim_counter = counterAddress, upkeepNeeded = False\<rparr>"

datatype contract = CounterC counter_st | KeeperSimC sim_st

text \<open>The four ABI functions the scripts use, with their arguments.\<close>

datatype call =
    CheckUpkeep bytes        \<comment> \<open>Counter.checkUpkeep(bytes) returns (bool, bytes)\<close>
  | PerformUpkeep bytes      \<comment> \<open>Counter.performUpkeep(bytes)\<close>
  | SimCheckUpkeep           \<comment> \<open>KeeperSimulation.checkUpkeep()\<close>
  | GetUpkeepNeeded          \<comment> \<open>KeeperSimulation.getUpkeepNeeded() returns (bool)\<close>

text \<open>Return data: a pair, a single boolean, nothing, or empty data (no code).\<close>

datatype retval = RBoolBytes bool bytes | RBool bool | RUnit | RNoData

section \<open>Chain state\<close>

record chain =
  accts :: "address \<rightharpoonup> contract"
  block_time :: uint
  mempool :: "(txhash \<times> address \<times> call) list"
  receipts :: "(txhash \<times> bool) list"
  tx_count :: nat
  next_addr :: nat

definition genesis :: "uint \<Rightarrow> chain" where
  "genesis t = \<lparr>accts = Map.empty, block_time = t, mempool = [], receipts = [],
                tx_count = 0, next_addr = 1\<rparr>"

section \<open>Executing a call\<close>

text \<open>
  One method of the contract at \<open>to\<close>, run at the current block time against the
  mined state.  A call to an address without code succeeds with empty return
  data; a selector the contract does not have reverts; KeeperSimulation's
  external call to a Counter address that holds no Counter reverts.
\<close>

fun exec_call :: "chain \<Rightarrow> address \<Rightarrow> call \<Rightarrow> error + (chain \<times> retval)" where
  "exec_call ch to f =
     (case accts ch to of
        None \<Rightarrow> Inr (ch, RNoData)
      | Some (CounterC c) \<Rightarrow>
          (case f of
             CheckUpkeep d \<Rightarrow> Inr (ch, RBoolBytes (counter_checkUpkeep (block_time ch) c) [])
           | PerformUpkeep d \<Rightarrow>
               Inr (ch\<lparr>accts := (accts ch)(to \<mapsto> CounterC (counter_performUpkeep (block_time ch) c))\<rparr>, RUnit)
           | _ \<Rightarrow> Inl (Reverted to))
      | Some (KeeperSimC s) \<Rightarrow>
          (case f of
             SimCheckUpkeep \<Rightarrow>
               (case accts ch (sim_counter s) of
                  Some (CounterC c) \<Rightarrow>
                    Inr (ch\<lparr>accts := (accts ch)(to \<mapsto> KeeperSimC
                           (s\<lparr>upkeepNeeded := counter_checkUpkeep (block_time ch) c\<rparr>))\<rparr>, RUnit)
                | _ \<Rightarrow> Inl (Reverted to))
           | GetUpkeepNeeded \<Rightarrow> Inr (ch, RBool (upkeepNeeded s))
           | _ \<Rightarrow> Inl (Reverted to)))"

declare exec_call.simps [simp del]

section \<open>Transactions and mining\<close>

definition submit :: "chain \<Rightarrow> address \<Rightarrow> call \<Rightarrow> txhash \<times> chain" where
  "submit ch to f =
     (tx_count ch, ch\<lparr>mempool := mempool ch @ [(tx_count ch, to, f)], tx_count := Suc (tx_count ch)\<rparr>)"

text \<open>Mining runs the pool in submission order; a reverted transaction leaves the
  state as it was and gets a failed receipt.\<close>

definition apply_tx :: "chain \<Rightarrow> txhash \<times> address \<times> call \<Rightarrow> chain" where
  "apply_tx ch tx =
     (case tx of (h, to, f) \<Rightarrow>
        (case exec_call ch to f of
           Inl _ \<Rightarrow> ch\<lparr>receipts := receipts ch @ [(h, False)]\<rparr>
         | Inr (ch', _) \<Rightarrow> ch'\<lparr>receipts := receipts ch' @ [(h, True)]\<rparr>))"

fun run_txs :: "chain \<Rightarrow> (txhash \<times> address \<times> call) list \<Rightarrow> chain" where
  "run_txs ch [] = ch"
| "run_txs ch (tx # ts) = run_txs (apply_tx ch tx) ts"

definition mine :: "chain \<Rightarrow> chain" where
  "mine ch = run_txs (ch\<lparr>mempool := []\<rparr>) (mempool ch)"

definition advance_time :: "uint \<Rightarrow> chain \<Rightarrow> chain" where
  "advance_time d ch =
     (if unat (block_time ch) + unat d < 2 ^ 256 then ch\<lparr>block_time := block_time ch + d\<rparr> else ch)"

definition create_contract :: "contract \<Rightarrow> chain \<Rightarrow> error + (address \<times> chain)" where
  "create_contract k ch =
     (if next_addr ch < 2 ^ 160
      then Inr (of_nat (next_addr ch),
                ch\<lparr>accts := (accts ch)(of_nat (next_addr ch) \<mapsto> k), next_addr := Suc (next_addr ch)\<rparr>)
      else Inl AddressSpaceFull)"

section \<open>The environment\<close>

text \<open>
  While a script waits on the network, the rest of the world moves: blocks are
  mined, time passes, other parties submit transactions.  A script is run
  against explicit lists of such moves, one list per point where it awaits the
  ledger.
\<close>

datatype env_act = Mine | Advance uint | Foreign address call

fun env_apply :: "env_act \<Rightarrow> chain \<Rightarrow> chain" where
  "env_apply Mine ch = mine ch"
| "env_apply (Advance d) ch = advance_time d ch"
| "env_apply (Foreign to f) ch = snd (submit ch to f)"

definition env_run :: "env_act list \<Rightarrow> chain \<Rightarrow> chain" where
  "env_run es ch = fold env_apply es ch"

section \<open>The invariant\<close>

text \<open>
  \<open>chain_inv\<close>: contract addresses are non-zero and below the allocation counter,
  which never passes \<open>2^160\<close>; no Counter's stored time is ahead of the block
  being built (so the unchecked subtraction in \<open>checkUpkeep\<close> never wraps);
  transaction hashes, mined or pending, are distinct and below the hash counter
  (so a new submission gets a fresh one).  \<open>chain_step\<close> is every move of the
  ledger: the environment's, and the creation of a contract by its constructor.
\<close>

definition counters_ok :: "chain \<Rightarrow> bool" where
  "counters_ok ch \<longleftrightarrow> (\<forall>a c. accts ch a = Some (CounterC c) \<longrightarrow> lastTimeStamp c \<le> block_time ch)"

definition hashes :: "chain \<Rightarrow> txhash list" where
  "hashes ch = map fst (receipts ch) @ map fst (mempool ch)"

definition chain_inv :: "chain \<Rightarrow> bool" where
  "chain_inv ch \<longleftrightarrow>
     0 < next_addr ch \<and> next_addr ch \<le> 2 ^ 160 \<and>
     (\<forall>a \<in> dom (accts ch). 0 < unat a \<and> unat a < next_addr ch) \<and>
     counters_ok ch \<and>
     distinct (hashes ch) \<and> (\<forall>h \<in> set (hashes ch). h < tx_count ch)"

inductive chain_step :: "chain \<Rightarrow> chain \<Rightarrow> bool" where
  env: "chain_step ch (env_apply e ch)"
| create_counter: "create_contract (CounterC (counter_constructor (block_time ch) i)) ch = Inr (a, ch')
     \<Longrightarrow> chain_step ch ch'"
| create_sim: "create_contract (KeeperSimC (sim_constructor c)) ch = Inr (a, ch') \<Longrightarrow> chain_step ch ch'"

inductive reachable_chain :: "chain \<Rightarrow> bool" where
  genesis: "reachable_chain (genesis t)"
| step: "reachable_chain ch \<Longrightarrow> chain_step ch ch' \<Longrightarrow> reachable_chain ch'"

section \<open>Immutable bindings\<close>

text \<open>
  \<open>shape ch a\<close> is what cannot change at an address once a contract is there: its
  kind and its immutable fields (a Counter's interval, a KeeperSimulation's
  Counter address).  Every move but a creation keeps the shape of every
  address, and a creation on an invariant chain only fills a fresh one.
\<close>

fun immutables :: "contract \<Rightarrow> uint + address" where
  "immutables (CounterC c) = Inl (interval c)"
| "immutables (KeeperSimC s) = Inr (sim_counter s)"

definition shape :: "chain \<Rightarrow> address \<Rightarrow> (uint + address) option" where
  "shape ch a = map_option immutables (accts ch a)"

section \<open>Frame and invariant lemmas\<close>

lemma hashes_upd_other [simp]:
  "hashes (ch\<lparr>block_time := t\<rparr>) = hashes ch" "hashes (ch\<lparr>accts := m\<rparr>) = hashes ch"
  "hashes (ch\<lparr>next_addr := n\<rparr>) = hashes ch" "hashes (ch\<lparr>tx_count := k\<rparr>) = hashes ch"
  by (simp_all add: hashes_def)

lemma exec_call_frame:
  assumes "exec_call ch to f = Inr (ch', r)"
  shows "block_time ch' = block_time ch \<and> mempool ch' = mempool ch \<and> receipts ch' = receipts ch
    \<and> tx_count ch' = tx_count ch \<and> next_addr ch' = next_addr ch \<and> dom (accts ch') = dom (accts ch)"
  using assms by (auto simp: exec_call.simps split: option.splits contract.splits call.splits if_splits)

lemma exec_call_counters_ok:
  assumes "exec_call ch to f = Inr (ch', r)" and "counters_ok ch"
  shows "counters_ok ch'"
  using assms
  by (auto simp: exec_call.simps counters_ok_def counter_performUpkeep_def
           split: option.splits contract.splits call.splits if_splits)

lemma apply_tx_frame:
  "mempool (apply_tx ch tx) = mempool ch \<and> tx_count (apply_tx ch tx) = tx_count ch
   \<and> next_addr (apply_tx ch tx) = next_addr ch \<and> block_time (apply_tx ch tx) = block_time ch
   \<and> dom (accts (apply_tx ch tx)) = dom (accts ch)
   \<and> map fst (receipts (apply_tx ch tx)) = map fst (receipts ch) @ [fst tx]"
  by (simp add: apply_tx_def exec_call_frame split: prod.splits sum.splits)

lemma apply_tx_counters_ok: "counters_ok ch \<Longrightarrow> counters_ok (apply_tx ch tx)"
  by (auto simp: apply_tx_def counters_ok_def dest: exec_call_counters_ok split: prod.splits sum.splits)

lemma run_txs_frame:
  "mempool (run_txs ch ts) = mempool ch \<and> tx_count (run_txs ch ts) = tx_count ch
   \<and> next_addr (run_txs ch ts) = next_addr ch \<and> block_time (run_txs ch ts) = block_time ch
   \<and> dom (accts (run_txs ch ts)) = dom (accts ch)
   \<and> map fst (receipts (run_txs ch ts)) = map fst (receipts ch) @ map fst ts"
  by (induction ts arbitrary: ch) (simp_all add: apply_tx_frame)

lemma run_txs_counters_ok: "counters_ok ch \<Longrightarrow> counters_ok (run_txs ch ts)"
  by (induction ts arbitrary: ch) (simp_all add: apply_tx_counters_ok)

lemma mine_frame:
  "mempool (mine ch) = [] \<and> tx_count (mine ch) = tx_count ch \<and> next_addr (mine ch) = next_addr ch
   \<and> block_time (mine ch) = block_time ch \<and> dom (accts (mine ch)) = dom (accts ch)
   \<and> map fst (receipts (mine ch)) = map fst (receipts ch) @ map fst (mempool ch)"
  by (simp add: mine_def run_txs_frame)

lemma mine_inv: "chain_inv ch \<Longrightarrow> chain_inv (mine ch)"
proof -
  assume inv: "chain_inv ch"
  have "counters_ok (ch\<lparr>mempool := []\<rparr>)" using inv by (simp add: chain_inv_def counters_ok_def)
  then have "counters_ok (mine ch)" by (simp add: mine_def run_txs_counters_ok)
  moreover have "hashes (mine ch) = hashes ch" by (simp add: hashes_def mine_frame)
  ultimately show ?thesis using inv by (simp add: chain_inv_def mine_frame)
qed

lemma advance_time_inv: "chain_inv ch \<Longrightarrow> chain_inv (advance_time d ch)"
proof (cases "unat (block_time ch) + unat d < 2 ^ 256")
  case True
  assume inv: "chain_inv ch"
  from True have "block_time ch \<le> block_time ch + d"
    by (simp add: word_le_nat_alt unat_add_lem [THEN iffD1])
  then have "counters_ok (ch\<lparr>block_time := block_time ch + d\<rparr>)"
    using inv by (fastforce simp: chain_inv_def counters_ok_def intro: order.trans)
  with inv True show ?thesis by (simp add: advance_time_def chain_inv_def)
next
  case False
  then show "chain_inv ch \<Longrightarrow> chain_inv (advance_time d ch)" by (simp add: advance_time_def)
qed

lemma hashes_submit: "hashes (snd (submit ch to f)) = hashes ch @ [tx_count ch]"
  by (simp add: hashes_def submit_def)

lemma submit_inv: "chain_inv ch \<Longrightarrow> chain_inv (snd (submit ch to f))"
proof -
  assume inv: "chain_inv ch"
  then have "tx_count ch \<notin> set (hashes ch)" by (auto simp: chain_inv_def)
  with inv have "distinct (hashes ch @ [tx_count ch])" and "\<forall>h \<in> set (hashes ch @ [tx_count ch]). h < Suc (tx_count ch)"
    by (auto simp: chain_inv_def)
  with inv show ?thesis
    unfolding chain_inv_def hashes_submit by (simp add: submit_def counters_ok_def)
qed

lemma create_contract_fresh:
  assumes "chain_inv ch" and "create_contract k ch = Inr (a, ch')"
  shows "accts ch a = None \<and> unat a = next_addr ch \<and> a \<noteq> 0 \<and> accts ch' a = Some k"
proof -
  from assms(2) have lt: "next_addr ch < 2 ^ 160" and a: "a = of_nat (next_addr ch)"
    by (auto simp: create_contract_def split: if_splits)
  from lt a have ua: "unat a = next_addr ch" by (simp add: unat_of_nat)
  with assms(1) have "accts ch a = None" unfolding chain_inv_def by (metis domI less_irrefl not_Some_eq)
  moreover from assms(1) ua have "a \<noteq> 0" by (auto simp: chain_inv_def)
  ultimately show ?thesis using assms(2) ua a by (auto simp: create_contract_def split: if_splits)
qed

lemma create_contract_inv:
  assumes "chain_inv ch" and "create_contract k ch = Inr (a, ch')"
    and "\<forall>c. k = CounterC c \<longrightarrow> lastTimeStamp c \<le> block_time ch"
  shows "chain_inv ch'"
proof -
  from assms(2) have lt: "next_addr ch < 2 ^ 160" and a: "a = of_nat (next_addr ch)"
    and ch': "ch' = ch\<lparr>accts := (accts ch)(a \<mapsto> k), next_addr := Suc (next_addr ch)\<rparr>"
    by (auto simp: create_contract_def split: if_splits)
  from lt a have ua: "unat a = next_addr ch" by (simp add: unat_of_nat)
  have "counters_ok ch'" using assms(1,3) ch' by (auto simp: chain_inv_def counters_ok_def)
  moreover have "dom (accts ch') = insert a (dom (accts ch))" and "hashes ch' = hashes ch"
    by (simp_all add: ch' hashes_def)
  ultimately show ?thesis using assms(1) lt ua ch' by (auto simp: chain_inv_def less_SucI)
qed

lemma genesis_inv: "chain_inv (genesis t)"
  by (simp add: chain_inv_def genesis_def counters_ok_def hashes_def)

lemma chain_step_inv: "chain_step ch ch' \<Longrightarrow> chain_inv ch \<Longrightarrow> chain_inv ch'"
proof (induction rule: chain_step.induct)
  case (env ch e)
  then show ?case by (cases e) (simp_all add: mine_inv advance_time_inv submit_inv)
next
  case (create_counter ch i a ch')
  then show ?case by (auto intro: create_contract_inv simp: counter_constructor_def)
next
  case (create_sim c ch a ch')
  then show ?case by (auto intro: create_contract_inv)
qed

lemma reachable_chain_inv: "reachable_chain ch \<Longrightarrow> chain_inv ch"
proof (induction rule: reachable_chain.induct)
  case (genesis t)
  show ?case by (rule genesis_inv)
next
  case (step ch ch')
  then show ?case by (blast intro: chain_step_inv)
qed

lemma counter_checkUpkeep_unat:
  assumes "chain_inv ch" and "accts ch a = Some (CounterC c)"
  shows "counter_checkUpkeep (block_time ch) c \<longleftrightarrow>
           unat (interval c) < unat (block_time ch) - unat (lastTimeStamp c)"
proof -
  from assms have "lastTimeStamp c \<le> block_time ch" by (auto simp: chain_inv_def counters_ok_def)
  then have "unat (block_time ch - lastTimeStamp c) = unat (block_time ch) - unat (lastTimeStamp c)"
    by (rule unat_sub)
  then show ?thesis by (simp add: counter_checkUpkeep_def word_less_nat_alt)
qed

lemma shape_upd [simp]: "shape (ch\<lparr>block_time := t\<rparr>) = shape ch" "shape (ch\<lparr>receipts := r\<rparr>) = shape ch"
  "shape (ch\<lparr>mempool := p\<rparr>) = shape ch" "shape (ch\<lparr>tx_count := n\<rparr>) = shape ch"
  by (simp_all add: shape_def fun_eq_iff)

lemma exec_call_shape: "exec_call ch to f = Inr (ch', r) \<Longrightarrow> shape ch' = shape ch"
  by (auto simp: exec_call.simps shape_def counter_performUpkeep_def fun_eq_iff
           split: option.splits contract.splits call.splits)

lemma apply_tx_shape [simp]: "shape (apply_tx ch tx) = shape ch"
  by (auto simp: apply_tx_def dest: exec_call_shape split: prod.splits sum.splits)

lemma run_txs_shape [simp]: "shape (run_txs ch ts) = shape ch"
  by (induction ts arbitrary: ch) simp_all

lemma env_apply_shape [simp]: "shape (env_apply e ch) = shape ch"
  by (cases e) (simp_all add: mine_def advance_time_def submit_def)

lemma env_run_shape [simp]: "shape (env_run es ch) = shape ch"
  unfolding env_run_def by (induction es arbitrary: ch) simp_all

lemma shape_counter:
  "shape ch a = Some (Inl i) \<longleftrightarrow> (\<exists>c. accts ch a = Some (CounterC c) \<and> interval c = i)"
  by (auto simp: shape_def elim!: immutables.elims)

lemma shape_sim:
  "shape ch a = Some (Inr b) \<longleftrightarrow> (\<exists>s. accts ch a = Some (KeeperSimC s) \<and> sim_counter s = b)"
  by (auto simp: shape_def elim!: immutables.elims)

lemma env_run_counter:
  assumes "accts ch a = Some (CounterC c)"
  obtains c' where "accts (env_run es ch) a = Some (CounterC c')" and "interval c' = interval c"
proof -
  have "shape (env_run es ch) a = shape ch a" by simp
  also from assms have "shape ch a = Some (Inl (interval c))" by (simp add: shape_def)
  finally have "\<exists>c'. accts (env_run es ch) a = Some (CounterC c') \<and> interval c' = interval c"
    by (simp add: shape_counter [symmetric])
  then show ?thesis using that by blast
qed

lemma env_run_sim:
  assumes "accts ch a = Some (KeeperSimC s)"
  obtains s' where "accts (env_run es ch) a = Some (KeeperSimC s')" and "sim_counter s' = sim_counter s"
proof -
  have "shape (env_run es ch) a = shape ch a" by simp
  also from assms have "shape ch a = Some (Inr (sim_counter s))" by (simp add: shape_def)
  finally have "\<exists>s'. accts (env_run es ch) a = Some (KeeperSimC s') \<and> sim_counter s' = sim_counter s"
    by (simp add: shape_sim [symmetric])
  then show ?thesis using that by blast
qed

lemma env_run_no_mine:
  "Mine \<notin> set es \<Longrightarrow> accts (env_run es ch) = accts ch \<and> set (mempool ch) \<subseteq> set (mempool (env_run es ch))"
proof (induction es arbitrary: ch)
  case Nil
  then show ?case by (simp add: env_run_def)
next
  case (Cons e es)
  then have "accts (env_apply e ch) = accts ch \<and> set (mempool ch) \<subseteq> set (mempool (env_apply e ch))"
    by (cases e) (auto simp: advance_time_def submit_def)
  with Cons show ?case by (auto simp: env_run_def)
qed

lemma mine_lone_sim_check:
  assumes "mempool ch = []" and "accts ch a = Some (KeeperSimC s)"
    and "accts ch (sim_counter s) = Some (CounterC c)"
  shows "accts (mine (snd (submit ch a SimCheckUpkeep))) a =
           Some (KeeperSimC (s\<lparr>upkeepNeeded := counter_checkUpkeep (block_time ch) c\<rparr>))
     \<and> receipts (mine (snd (submit ch a SimCheckUpkeep))) = receipts ch @ [(tx_count ch, True)]"
  using assms by (simp add: mine_def submit_def apply_tx_def exec_call.simps)

lemma mine_idle: "mempool ch = [] \<Longrightarrow> mine ch = ch"
  by (simp add: mine_def)

lemma mine_lone_perform:
  assumes "mempool ch = []" and "accts ch a = Some (CounterC c)"
  shows "accts (mine (snd (submit ch a (PerformUpkeep d)))) a =
           Some (CounterC (counter_performUpkeep (block_time ch) c))"
  using assms by (simp add: mine_def submit_def apply_tx_def exec_call.simps)

lemma chain_step_shape:
  assumes "chain_step ch ch'" and "chain_inv ch" and "shape ch a = Some x"
  shows "shape ch' a = Some x"
  using assms
proof (induction rule: chain_step.induct)
  case (env ch e)
  then show ?case by simp
next
  case (create_counter ch i b ch')
  then have "accts ch b = None" by (blast dest: create_contract_fresh)
  with create_counter.prems(2) have "a \<noteq> b" by (auto simp: shape_def)
  with create_counter show ?case by (auto simp: create_contract_def shape_def split: if_splits)
next
  case (create_sim c ch b ch')
  then have "accts ch b = None" by (blast dest: create_contract_fresh)
  with create_sim.prems(2) have "a \<noteq> b" by (auto simp: shape_def)
  with create_sim show ?case by (auto simp: create_contract_def shape_def split: if_splits)
qed

section \<open>Counter properties\<close>

text \<open>
  On every reachable chain the upkeep test of a Counter is the arithmetic one:
  the unsigned difference does not wrap.
\<close>

lemma counter_check_nowrap:
  assumes "reachable_chain ch" and "accts ch a = Some (CounterC c)"
  shows "counter_checkUpkeep (block_time ch) c \<longleftrightarrow>
           unat (interval c) < unat (block_time ch) - unat (lastTimeStamp c)"
  using reachable_chain_inv [OF assms(1)] assms(2) by (rule counter_checkUpkeep_unat)

text \<open>
  \<open>performUpkeep\<close> on a Counter never reverts; it stores the block time, counts
  modulo \<open>2^256\<close>, and afterwards \<open>checkUpkeep\<close> at the same time answers false.
\<close>

lemma perform_after_check:
  assumes "accts ch a = Some (CounterC c)"
  shows "\<exists>ch'. exec_call ch a (PerformUpkeep d) = Inr (ch', RUnit)
     \<and> accts ch' a = Some (CounterC (c\<lparr>lastTimeStamp := block_time ch, counter := counter c + 1\<rparr>))
     \<and> \<not> counter_checkUpkeep (block_time ch) (c\<lparr>lastTimeStamp := block_time ch, counter := counter c + 1\<rparr>)"
  using assms by (simp add: exec_call.simps counter_performUpkeep_def counter_checkUpkeep_def)

lemma env_run_steps: "chain_step\<^sup>*\<^sup>* ch (env_run es ch)"
proof (induction es arbitrary: ch)
  case Nil
  then show ?case by (simp add: env_run_def)
next
  case (Cons e es)
  have "chain_step ch (env_apply e ch)" by (rule chain_step.env)
  with Cons.IH [of "env_apply e ch"] show ?case
    by (simp add: env_run_def)
qed

lemma submit_step: "chain_step ch (snd (submit ch a f))"
  using chain_step.env [of ch "Foreign a f"] by simp

lemma chain_steps_keep:
  assumes "chain_step\<^sup>*\<^sup>* ch ch'" and "reachable_chain ch"
  shows "reachable_chain ch' \<and> (\<forall>a x. shape ch a = Some x \<longrightarrow> shape ch' a = Some x)"
  using assms
proof (induction rule: rtranclp_induct)
  case base
  then show ?case by simp
next
  case (step y z)
  then have ry: "reachable_chain y" and sh: "\<forall>a x. shape ch a = Some x \<longrightarrow> shape y a = Some x" by simp_all
  from ry have "chain_inv y" by (rule reachable_chain_inv)
  with step.hyps(2) sh have "\<forall>a x. shape ch a = Some x \<longrightarrow> shape z a = Some x"
    by (blast intro: chain_step_shape)
  with ry step.hyps(2) show ?case by (blast intro: reachable_chain.step)
qed

text \<open>
  A contract keeps its kind and its immutable fields along every run of the
  ledger from a reachable chain; in particular a KeeperSimulation stays bound
  to the Counter address its constructor was given.
\<close>

lemma binding_permanent:
  assumes "chain_step\<^sup>*\<^sup>* ch ch'" and "reachable_chain ch"
    and "accts ch a = Some (KeeperSimC s)"
  shows "\<exists>s'. accts ch' a = Some (KeeperSimC s') \<and> sim_counter s' = sim_counter s"
proof -
  from assms(3) have "shape ch a = Some (Inr (sim_counter s))" by (simp add: shape_def)
  with chain_steps_keep [OF assms(1,2)] have "shape ch' a = Some (Inr (sim_counter s))" by blast
  then show ?thesis by (simp add: shape_sim)
qed

end
