(* ===== verification/Ethers.thy ===== *)
theory Ethers
  imports Ledger
begin

text \<open>
  The contract-binding library the scripts call (ethers v5), modelled from the
  specification and from the library's documented behaviour, which the scripts
  rely on: what a JavaScript value of a call result is, how an unsigned
  integer is ABI-encoded (\<open>defaultAbiCoder.encode(['uint'], [v])\<close>), how a
  number becomes bytes (\<open>arrayify\<close>), how an address is printed and parsed, how
  a contract binding is attached to an address string, and how a method call
  is dispatched: a \<open>view\<close> or \<open>pure\<close> function is a read call whose decoded
  result is returned, any other function is a signed transaction whose
  response (with its hash) is returned as soon as it is in the pool.
\<close>

section \<open>JavaScript values\<close>

text \<open>
  The values the scripts see: \<open>undefined\<close>, booleans, strings, byte strings
  (hex strings in ethers), array-like call results, and transaction responses
  (objects with a \<open>hash\<close> field).
\<close>

datatype jsval = JUndef | JBool bool | JStr string | JBytes bytes | JArr "jsval list" | JTx txhash

text \<open>\<open>v[i]\<close>: an element of an array, \<open>undefined\<close> on anything else.\<close>

fun js_index :: "jsval \<Rightarrow> nat \<Rightarrow> jsval" where
  "js_index (JArr vs) i = (if i < length vs then vs ! i else JUndef)"
| "js_index _ i = JUndef"

text \<open>JavaScript truthiness: \<open>undefined\<close>, \<open>false\<close> and \<open>''''\<close> are falsy, objects are truthy.\<close>

fun js_truthy :: "jsval \<Rightarrow> bool" where
  "js_truthy JUndef = False"
| "js_truthy (JBool b) = b"
| "js_truthy (JStr s) = (s \<noteq> [])"
| "js_truthy _ = True"

section \<open>Hexadecimal\<close>

definition hex_digit :: "nat \<Rightarrow> char" where
  "hex_digit d = ''0123456789abcdef'' ! d"

definition hex_value :: "char \<Rightarrow> nat option" where
  "hex_value c =
     (let n = of_char c :: nat in
      if 48 \<le> n \<and> n \<le> 57 then Some (n - 48)
      else if 97 \<le> n \<and> n \<le> 102 then Some (n - 87)
      else if 65 \<le> n \<and> n \<le> 70 then Some (n - 55)
      else None)"

definition show_hex :: "nat \<Rightarrow> nat \<Rightarrow> string" where
  "show_hex n v = map hex_digit (digits_be 16 n v)"

definition parse_hex :: "string \<Rightarrow> nat option" where
  "parse_hex s = map_option (val_be 16) (those (map hex_value s))"

text \<open>
  An address prints as \<open>0x\<close> and 40 lower-case hex digits; \<open>getAddress\<close> accepts
  40 hex digits with or without the \<open>0x\<close> prefix.  (ethers prints the EIP-55
  mixed-case checksum form and rejects a mixed-case string whose checksum is
  wrong; the checksum needs Keccak and is not modelled: lower-case strings,
  which this printer produces, are accepted by both.)
\<close>

definition show_address :: "address \<Rightarrow> string" where
  "show_address a = ''0x'' @ show_hex 40 (unat a)"

definition parse_address :: "string \<Rightarrow> address option" where
  "parse_address s =
     (let t = (if take 2 s = ''0x'' then drop 2 s else s)
      in if length t = 40 then map_option of_nat (parse_hex t) else None)"

text \<open>A transaction hash prints as \<open>0x\<close> and 64 hex digits.\<close>

definition show_hash :: "txhash \<Rightarrow> string" where
  "show_hash h = ''0x'' @ show_hex 64 h"

text \<open>\<open>js_hash r\<close> is \<open>r.hash\<close>.\<close>

fun js_hash :: "jsval \<Rightarrow> jsval" where
  "js_hash (JTx h) = JStr (show_hash h)"
| "js_hash _ = JUndef"

text \<open>
  How \<open>console.log\<close> renders one argument: strings as they are, booleans and
  \<open>undefined\<close> by name, bytes as a hex string.  Arrays and responses are never
  printed by the scripts and get a placeholder.
\<close>

fun js_show :: "jsval \<Rightarrow> string" where
  "js_show JUndef = ''undefined''"
| "js_show (JBool b) = (if b then ''true'' else ''false'')"
| "js_show (JStr s) = s"
| "js_show (JBytes d) = ''0x'' @ concat (map (\<lambda>x. show_hex 2 (unat x)) d)"
| "js_show (JArr vs) = ''[Array]''"
| "js_show (JTx h) = ''[Object]''"

section \<open>Encoding\<close>

text \<open>\<open>defaultAbiCoder.encode(['uint'], [v])\<close>: one 32-byte big-endian word;
  a negative value or one of \<open>2^256\<close> or more is rejected.\<close>

definition abi_encode_uint :: "int \<Rightarrow> error + bytes" where
  "abi_encode_uint v =
     (if 0 \<le> v \<and> v < 2 ^ 256 then Inr (map of_nat (digits_be 256 32 (nat v)))
      else Inl (AbiOutOfBounds v))"

definition abi_decode_uint :: "bytes \<Rightarrow> int" where
  "abi_decode_uint bs = int (val_be 256 (map unat bs))"

text \<open>\<open>arrayify(n)\<close> of a JavaScript number: its big-endian bytes without leading
  zeros, and one zero byte for 0; numbers beyond \<open>2^53\<close> are refused.\<close>

fun num_bytes :: "nat \<Rightarrow> bytes" where
  "num_bytes v = (if v = 0 then [] else num_bytes (v div 256) @ [of_nat (v mod 256)])"

declare num_bytes.simps [simp del]

definition arrayify_num :: "nat \<Rightarrow> error + bytes" where
  "arrayify_num v =
     (if v < 2 ^ 53 then Inr (let r = num_bytes v in if r = [] then [0] else r)
      else Inl (UnsafeInteger v))"

section \<open>Contract bindings\<close>

datatype mutability = Pure | View | NonPayable | Payable

type_synonym abi = "string \<rightharpoonup> mutability"

definition is_constant :: "mutability \<Rightarrow> bool" where
  "is_constant m \<longleftrightarrow> m = Pure \<or> m = View"

text \<open>
  \<open>new ethers.Contract(s, iface, signer)\<close>: a string that is an address is
  resolved at once; any other string is kept as an ENS name, resolved at the
  first call, and with no signer (hence no provider) the constructor throws.
\<close>

datatype target = Resolved address | EnsName string

record contract_handle =
  target :: target
  iface :: abi
  signer :: "address option"

definition contract_attach :: "string \<Rightarrow> abi \<Rightarrow> address option \<Rightarrow> error + contract_handle" where
  "contract_attach s i sg =
     (case parse_address s of
        Some a \<Rightarrow> Inr \<lparr>target = Resolved a, iface = i, signer = sg\<rparr>
      | None \<Rightarrow> (if sg = None then Inl (InvalidAddress s)
                 else Inr \<lparr>target = EnsName s, iface = i, signer = sg\<rparr>))"

text \<open>Decoding the return data of a read call.\<close>

fun decode_result :: "address \<Rightarrow> retval \<Rightarrow> error + jsval" where
  "decode_result a (RBoolBytes b d) = Inr (JArr [JBool b, JBytes d])"
| "decode_result a (RBool b) = Inr (JBool b)"
| "decode_result a RUnit = Inr (JArr [])"
| "decode_result a RNoData = Inl (CallException a)"

text \<open>
  \<open>await contract.name(args)\<close>.  Looking the method up is synchronous; then the
  script waits, and while it waits the environment makes the moves \<open>es\<close>.  A
  constant method is an \<open>eth_call\<close> against the mined state, which it does not
  change; any other method is estimated (a reverting estimate throws) and
  submitted, and the response comes back before the transaction is mined.
  The hardhat network has no ENS, so a name never resolves.
\<close>

definition contract_invoke ::
  "contract_handle \<Rightarrow> string \<Rightarrow> call \<Rightarrow> env_act list \<Rightarrow> chain \<Rightarrow> error + (jsval \<times> chain)" where
  "contract_invoke k name f es ch =
     (case iface k name of
        None \<Rightarrow> Inl (NotAFunction name)
      | Some m \<Rightarrow>
          (let ch1 = env_run es ch in
           case signer k of
             None \<Rightarrow> Inl NoSigner
           | Some _ \<Rightarrow>
               (case target k of
                  EnsName s \<Rightarrow> Inl (InvalidAddress s)
                | Resolved a \<Rightarrow>
                    (if is_constant m then
                       (case exec_call ch1 a f of
                          Inl _ \<Rightarrow> Inl (CallException a)
                        | Inr (_, r) \<Rightarrow>
                            (case decode_result a r of
                               Inl e \<Rightarrow> Inl e
                             | Inr v \<Rightarrow> Inr (v, ch1)))
                     else
                       (case exec_call ch1 a f of
                          Inl _ \<Rightarrow> Inl (UnpredictableGas a)
                        | Inr _ \<Rightarrow> (case submit ch1 a f of (h, ch2) \<Rightarrow> Inr (JTx h, ch2)))))))"

declare parse_address_def [model_simps] parse_hex_def [model_simps] hex_value_def [model_simps]
  val_be_def [model_simps] show_address_def [model_simps] show_hex_def [model_simps]
  hex_digit_def [model_simps] show_hash_def [model_simps]

section \<open>Dispatch lemmas\<close>

lemma contract_attach_resolved:
  "parse_address s = Some a \<Longrightarrow> contract_attach s i sg = Inr \<lparr>target = Resolved a, iface = i, signer = sg\<rparr>"
  by (simp add: contract_attach_def)

lemma contract_invoke_call:
  assumes "iface k name = Some m" and "is_constant m" and "signer k = Some sg"
    and "target k = Resolved a" and "exec_call (env_run es ch) a f = Inr (ch', r)"
    and "decode_result a r = Inr v"
  shows "contract_invoke k name f es ch = Inr (v, env_run es ch)"
  using assms by (simp add: contract_invoke_def)

lemma contract_invoke_send:
  assumes "iface k name = Some m" and "\<not> is_constant m" and "signer k = Some sg"
    and "target k = Resolved a" and "exec_call (env_run es ch) a f = Inr x"
  shows "contract_invoke k name f es ch =
           Inr (JTx (tx_count (env_run es ch)), snd (submit (env_run es ch) a f))"
  using assms by (simp add: contract_invoke_def submit_def Let_def)

lemma arrayify_zero: "arrayify_num 0 = Inr [0]"
  by (simp add: arrayify_num_def num_bytes.simps)

section \<open>Round trips\<close>

text \<open>A printed address parses back to itself; an ABI-encoded \<open>uint\<close> is one
  32-byte word that decodes to the encoded value.\<close>

lemma hex_value_digit: "d < 16 \<Longrightarrow> hex_value (hex_digit d) = Some d"
proof -
  assume "d < 16"
  then have "d \<in> {0..<16}" by simp
  also have "{0..<16} = set [0..<16]" by simp
  finally have "d \<in> set [0..<16]" .
  then show ?thesis by (simp add: upt_rec hex_digit_def hex_value_def) (elim disjE; simp)
qed

lemma those_hex: "\<forall>d \<in> set ds. d < 16 \<Longrightarrow> those (map (hex_value \<circ> hex_digit) ds) = Some ds"
  by (induction ds) (simp_all add: hex_value_digit)

lemma parse_show_hex: "parse_hex (show_hex n v) = Some (v mod 16 ^ n)"
proof -
  have "\<forall>d \<in> set (digits_be 16 n v). d < 16" by (auto intro: digits_be_less)
  then show ?thesis by (simp add: parse_hex_def show_hex_def those_hex val_be_digits_be)
qed

lemma parse_address_show_address: "parse_address (show_address a) = Some a"
proof -
  have "unat a < 2 ^ LENGTH(160)" by (rule unsigned_less)
  then have "unat a < 16 ^ 40" by simp
  then show ?thesis by (simp add: parse_address_def show_address_def show_hex_def parse_show_hex [unfolded show_hex_def])
qed

lemma unat_of_nat_byte: "d < 256 \<Longrightarrow> unat (of_nat d :: byte) = d"
  by (simp add: unat_of_nat)

lemma abi_decode_encode:
  assumes "abi_encode_uint v = Inr bs"
  shows "length bs = 32 \<and> abi_decode_uint bs = v"
proof -
  from assms have v: "0 \<le> v" "v < 2 ^ 256" and bs: "bs = map of_nat (digits_be 256 32 (nat v))"
    by (auto simp: abi_encode_uint_def split: if_splits)
  have "\<forall>d \<in> set (digits_be 256 32 (nat v)). d < 256" by (auto intro: digits_be_less)
  then have "map unat bs = digits_be 256 32 (nat v)"
    by (simp add: bs map_idI unat_of_nat_byte)
  moreover from v have "nat v < 256 ^ 32" by (simp add: nat_less_iff)
  ultimately have "abi_decode_uint bs = int (nat v)"
    by (simp add: abi_decode_uint_def val_be_digits_be)
  with v bs show ?thesis by simp
qed

section \<open>Effects of a call on the ledger\<close>

lemma contract_invoke_result:
  "contract_invoke k name f es ch = Inr (v, ch') \<Longrightarrow>
     ch' = env_run es ch \<or> (\<exists>a. ch' = snd (submit (env_run es ch) a f))"
  by (auto simp: contract_invoke_def Let_def submit_def
           split: option.splits target.splits if_splits sum.splits prod.splits)

lemma contract_invoke_steps:
  "contract_invoke k name f es ch = Inr (v, ch') \<Longrightarrow> chain_step\<^sup>*\<^sup>* ch ch'"
  by (auto dest!: contract_invoke_result intro: env_run_steps submit_step rtranclp.rtrancl_into_rtrancl)

end
