(* ===== verification/Hre.thy ===== *)
theory Hre
  imports Ethers
begin

text \<open>
  The hardhat runtime environment the three scripts run in, modelled from the
  specification (sections 2, 6 and 9): the ambient state the scripts read
  (selected network and its chain id, the \<open>networkConfig\<close> table of
  \<open>helper-hardhat-config\<close>, the named deployer account, the signers, the
  compiled artifacts, the deployment registry of hardhat-deploy, the wall
  clock) and write (the ledger, the console, the global log level of ethers).
  Also here: the framework operations the scripts call (\<open>deployments.get\<close>,
  \<open>deploy\<close> with its reuse of an unchanged deployment, \<open>getContractFactory\<close>,
  \<open>log\<close> and \<open>console.log\<close>), the selection of
  deploy scripts by tag, and the command line: how \<open>npx hardhat task --p v\<close>
  is split into a task name and its parameters, and how a task's declared
  parameters are checked before its action runs.
\<close>

datatype log_level = LogDebug | LogInfo | LogWarning | LogError | LogOff

text \<open>\<open>networkConfig\<close> maps a chain id to an entry whose \<open>name\<close> may be missing.\<close>

record hre =
  chain :: chain
  network_name :: string
  chain_id :: nat
  networkConfig :: "nat \<rightharpoonup> string option"
  named_deployer :: "address option"
  signers :: "address list"
  artifacts :: "string \<rightharpoonup> abi"
  deployments :: "string \<rightharpoonup> address"
  out :: "string list"
  log_level :: log_level
  clock_ms :: int

text \<open>The ABIs of the two compiled contracts, as the specification gives them
  (section 6): which functions exist and which are read-only.\<close>

definition counter_abi :: abi where
  "counter_abi = [''checkUpkeep'' \<mapsto> View, ''performUpkeep'' \<mapsto> NonPayable]"

definition sim_abi :: abi where
  "sim_abi = [''checkUpkeep'' \<mapsto> NonPayable, ''getUpkeepNeeded'' \<mapsto> View]"

text \<open>The first signer, \<open>(await ethers.getSigners())[0]\<close>: \<open>undefined\<close> when there is none.\<close>

definition first_signer :: "hre \<Rightarrow> address option" where
  "first_signer w = (case signers w of [] \<Rightarrow> None | s # _ \<Rightarrow> Some s)"

section \<open>Framework operations\<close>

text \<open>\<open>console.log(a, b, ...)\<close> and hardhat-deploy's \<open>log(s)\<close> print one line.\<close>

definition console_log :: "string list \<Rightarrow> hre \<Rightarrow> hre" where
  "console_log args w = w\<lparr>out := out w @ [join_sp args]\<rparr>"

definition get_contract_factory :: "string \<Rightarrow> hre \<Rightarrow> error + abi" where
  "get_contract_factory name w =
     (case artifacts w name of None \<Rightarrow> Inl (NoArtifact name) | Some i \<Rightarrow> Inr i)"

definition deployments_get :: "string \<Rightarrow> hre \<Rightarrow> error + address" where
  "deployments_get name w =
     (case deployments w name of None \<Rightarrow> Inl (NoDeployment name) | Some a \<Rightarrow> Inr a)"

text \<open>
  \<open>deploy(name, {from, args, log})\<close>: needs the artifact and a sender.  When
  the registry already records \<open>name\<close> at an address whose contract has the
  same kind and constructor argument, the deployment is reused; otherwise
  the contract its constructor builds from \<open>args\<close> is created.  The call waits
  until the contract is mined and records the deployment under \<open>name\<close>.
  With \<open>log: true\<close> it prints one line: \<open>reusing "name" at address\<close>, or a line
  naming the new contract and its address.  hardhat-deploy's line for a new
  contract also carries the transaction hash and the gas used, which the
  ledger model does not have.  hardhat-deploy decides reuse from the
  bytecode and arguments stored in the record.  The model reads kind and
  argument from the contract at the recorded address; they are the same
  while the registry conforms to the ledger (\<open>registry_ok\<close> in the root
  theory).
\<close>

definition hh_deploy_log :: "string \<Rightarrow> address \<Rightarrow> string" where
  "hh_deploy_log name a = ''deploying '' @ [CHR 0x22] @ name @ [CHR 0x22] @ '': deployed at '' @ show_address a"

definition hh_reuse_log :: "string \<Rightarrow> address \<Rightarrow> string" where
  "hh_reuse_log name a = ''reusing '' @ [CHR 0x22] @ name @ [CHR 0x22] @ '' at '' @ show_address a"

definition hh_reusable :: "string \<Rightarrow> contract \<Rightarrow> hre \<Rightarrow> address option" where
  "hh_reusable name k w =
     (case deployments w name of
        None \<Rightarrow> None
      | Some a \<Rightarrow> if shape (chain w) a = Some (immutables k) then Some a else None)"

definition hh_deploy ::
  "string \<Rightarrow> address option \<Rightarrow> bool \<Rightarrow> contract \<Rightarrow> hre \<Rightarrow> error + (address \<times> hre)" where
  "hh_deploy name from log k w =
     (case artifacts w name of
        None \<Rightarrow> Inl (NoArtifact name)
      | Some _ \<Rightarrow>
          (case from of
             None \<Rightarrow> Inl NoSigner
           | Some _ \<Rightarrow>
               (case hh_reusable name k w of
                  Some a \<Rightarrow> Inr (a, w\<lparr>out := out w @ (if log then [hh_reuse_log name a] else [])\<rparr>)
                | None \<Rightarrow>
                    (case create_contract k (chain w) of
                       Inl e \<Rightarrow> Inl e
                     | Inr (a, ch) \<Rightarrow>
                         Inr (a, w\<lparr>chain := ch, deployments := (deployments w)(name \<mapsto> a),
                                    out := out w @ (if log then [hh_deploy_log name a] else [])\<rparr>)))))"

text \<open>hardhat-deploy runs a script when no tag is requested or one of its tags is.\<close>

definition script_selected :: "string list \<Rightarrow> string list \<Rightarrow> bool" where
  "script_selected script_tags requested \<longleftrightarrow>
     requested = [] \<or> (\<exists>t \<in> set requested. t \<in> set script_tags)"

section \<open>Command line and tasks\<close>

text \<open>\<open>npx hardhat <task> --<p> <v> ...\<close>, split into words.\<close>

text \<open>\<open>--network n\<close> selects the network; the model holds one network, and a
  command naming another is outside it.\<close>

definition select_network :: "(string \<times> string) list \<Rightarrow> hre \<Rightarrow> error + hre" where
  "select_network ps w =
     (case map_of ps ''network'' of
        None \<Rightarrow> Inr w
      | Some n \<Rightarrow> if n = network_name w then Inr w else Inl (OtherNetwork n))"

text \<open>\<open>--tags a,b\<close>: the requested tags.\<close>

definition requested_tags :: "(string \<times> string) list \<Rightarrow> string list" where
  "requested_tags ps = (case map_of ps ''tags'' of None \<Rightarrow> [] | Some t \<Rightarrow> split_acc (CHR '','') [] t)"

fun cli_params :: "string list \<Rightarrow> (string \<times> string) list option" where
  "cli_params [] = Some []"
| "cli_params [f] = None"
| "cli_params (f # v # rest) =
     (if take 2 f = ''--'' \<and> 2 < length f then map_option (Cons (drop 2 f, v)) (cli_params rest)
      else None)"

definition parse_cli :: "string \<Rightarrow> error + (string \<times> (string \<times> string) list)" where
  "parse_cli s =
     (case shell_words s of
        n # h # task # args \<Rightarrow>
          (if n = ''npx'' \<and> h = ''hardhat''
           then (case cli_params args of None \<Rightarrow> Inl BadCommandLine | Some ps \<Rightarrow> Inr (task, ps))
           else Inl BadCommandLine)
      | _ \<Rightarrow> Inl BadCommandLine)"

text \<open>A task declaration: its name, description, and required parameters.\<close>

record task_decl =
  task_name :: string
  task_desc :: string
  task_params :: "string list"

text \<open>
  Before the action runs, every declared parameter must be given; the action
  receives them by name (\<open>taskArgs.contract\<close>).  \<open>--network\<close> is consumed by
  hardhat itself and selects the network.
\<close>

definition task_args :: "task_decl \<Rightarrow> (string \<times> string) list \<Rightarrow> error + (string \<rightharpoonup> string)" where
  "task_args d ps =
     (case find (\<lambda>p. map_of ps p = None) (task_params d) of
        Some p \<Rightarrow> Inl (MissingParam p)
      | None \<Rightarrow> Inr (map_of ps))"

section \<open>An example environment\<close>

text \<open>
  A hardhat network at block time 100 with a Counter (interval 10, last upkeep
  at 50) at address 1 and a KeeperSimulation bound to it at address 2; one
  signer, both artifacts, the Counter recorded as deployed, the clock at
  1700000000000 ms.  The witnesses of the scripts' theorems run here.
\<close>

definition example_chain :: chain where
  "example_chain =
     \<lparr>accts = [1 \<mapsto> CounterC \<lparr>counter = 0, interval = 10, lastTimeStamp = 50\<rparr>,
               2 \<mapsto> KeeperSimC \<lparr>sim_counter = 1, upkeepNeeded = False\<rparr>],
      block_time = 100, mempool = [], receipts = [], tx_count = 0, next_addr = 3\<rparr>"

definition example_hre :: hre where
  "example_hre =
     \<lparr>chain = example_chain, network_name = ''hardhat'', chain_id = 31337,
      networkConfig = [31337 \<mapsto> Some ''hardhat''], named_deployer = Some 7, signers = [7],
      artifacts = [''Counter'' \<mapsto> counter_abi, ''KeeperSimulation'' \<mapsto> sim_abi],
      deployments = [''Counter'' \<mapsto> 1], out = [], log_level = LogInfo, clock_ms = 1700000000000\<rparr>"

declare example_chain_def [model_simps] example_hre_def [model_simps]
  counter_abi_def [model_simps] sim_abi_def [model_simps]

text \<open>The example chain is reachable: from genesis at time 50, create the
  Counter, let 50 seconds pass, create the KeeperSimulation.\<close>

lemma example_chain_reachable: "reachable_chain example_chain"
proof -
  define ch1 where "ch1 = \<lparr>accts = [1 \<mapsto> CounterC \<lparr>counter = 0, interval = 10, lastTimeStamp = 50\<rparr>],
      block_time = 50, mempool = [], receipts = [], tx_count = 0, next_addr = 2\<rparr>"
  have r1: "reachable_chain ch1"
  proof (rule reachable_chain.step [OF reachable_chain.genesis [of 50]])
    show "chain_step (genesis 50) ch1"
      by (rule chain_step.create_counter [where i = 10 and a = 1])
         (simp add: create_contract_def genesis_def counter_constructor_def ch1_def)
  qed
  have "chain_step ch1 (advance_time 50 ch1)" using chain_step.env [of ch1 "Advance 50"] by simp
  with r1 have r2: "reachable_chain (advance_time 50 ch1)" by (rule reachable_chain.step)
  show ?thesis
  proof (rule reachable_chain.step [OF r2])
    show "chain_step (advance_time 50 ch1) example_chain"
      by (rule chain_step.create_sim [where c = 1 and a = 2])
         (simp add: create_contract_def advance_time_def sim_constructor_def ch1_def example_chain_def)
  qed
qed

text \<open>
  A witness for the binding property: the KeeperSimulation of the example
  chain, after another party's \<open>checkUpkeep()\<close> is submitted and mined.
\<close>

theorem binding_permanent_witness:
  "\<exists>s'. accts (mine (snd (submit example_chain 2 SimCheckUpkeep))) 2 = Some (KeeperSimC s')
      \<and> sim_counter s' = sim_counter \<lparr>sim_counter = 1, upkeepNeeded = False\<rparr>"
proof -
  have s1: "chain_step example_chain (snd (submit example_chain 2 SimCheckUpkeep))" by (rule submit_step)
  have s2: "chain_step (snd (submit example_chain 2 SimCheckUpkeep)) (mine (snd (submit example_chain 2 SimCheckUpkeep)))"
    using chain_step.env [of "snd (submit example_chain 2 SimCheckUpkeep)" Mine] by simp
  have st: "chain_step\<^sup>*\<^sup>* example_chain (mine (snd (submit example_chain 2 SimCheckUpkeep)))"
    using s1 s2 by (rule converse_rtranclp_into_rtranclp [OF _ r_into_rtranclp])
  have a: "accts example_chain 2 = Some (KeeperSimC \<lparr>sim_counter = 1, upkeepNeeded = False\<rparr>)"
    by (simp add: example_chain_def)
  show ?thesis by (rule binding_permanent [OF st example_chain_reachable a])
qed

section \<open>Lemmas\<close>

lemma hh_reusable_upd [simp]:
  "hh_reusable name k (w\<lparr>log_level := l\<rparr>) = hh_reusable name k w"
  "hh_reusable name k (w\<lparr>out := o'\<rparr>) = hh_reusable name k w"
  by (simp_all add: hh_reusable_def cong: option.case_cong)

lemma console_log_fields [simp]:
  "chain (console_log args w) = chain w" "artifacts (console_log args w) = artifacts w"
  "signers (console_log args w) = signers w" "clock_ms (console_log args w) = clock_ms w"
  "network_name (console_log args w) = network_name w" "deployments (console_log args w) = deployments w"
  "networkConfig (console_log args w) = networkConfig w" "chain_id (console_log args w) = chain_id w"
  "named_deployer (console_log args w) = named_deployer w" "log_level (console_log args w) = log_level w"
  "out (console_log args w) = out w @ [join_sp args]"
  by (simp_all add: console_log_def)

lemma counter_abi_simps:
  "counter_abi ''checkUpkeep'' = Some View" "counter_abi ''performUpkeep'' = Some NonPayable"
  by (simp_all add: counter_abi_def)

lemma sim_abi_simps:
  "sim_abi ''checkUpkeep'' = Some NonPayable" "sim_abi ''getUpkeepNeeded'' = Some View"
  by (simp_all add: sim_abi_def)

end
