(* ===== verification/KeeperSimulationTask.thy ===== *)
theory KeeperSimulationTask
  imports Hre
begin

text \<open>
  The \<open>keeper-simulation\<close> task (src/tasks/keeper-simulation/keeper-simulation.js):
  given a Counter address, it reads \<open>checkUpkeep\<close> with the current Unix time
  ABI-encoded as argument and, if the first returned value is truthy, sends a
  \<open>performUpkeep\<close> transaction and prints its hash.  The action is run against
  two lists of environment moves: \<open>e1\<close> happen while the script awaits the read
  call, \<open>e2\<close> while it awaits the transaction submission.  (Moves made during the
  earlier awaits, \<open>getNetworkIdFromName\<close>, \<open>getContractFactory\<close> and
  \<open>getSigners\<close>, touch nothing the script has read and are folded into \<open>e1\<close>.)
\<close>

definition keeper_simulation_decl :: task_decl where
  "keeper_simulation_decl =
     \<lparr>task_name = ''keeper-simulation'',
      task_desc = ''Keeper simulator calls as external to Counter Contract to checkUpKeep'',
      task_params = [''contract'']\<rparr>"

text \<open>\<open>Math.floor(new Date().getTime() / 1000)\<close>: floor division, as \<open>div\<close> on \<open>int\<close>.\<close>

definition ks_seconds :: "int \<Rightarrow> int" where
  "ks_seconds ms = ms div 1000"

text \<open>Line 9: the banner.\<close>

definition ks_banner :: "string \<Rightarrow> hre \<Rightarrow> hre" where
  "ks_banner contractAddr w =
     console_log [''Calling Counter contract simulating a Keeper call '', contractAddr,
                  '' on network '', network_name w] w"

text \<open>Lines 10-17: the Counter factory, the first signer, the binding to the address.\<close>

definition ks_connect :: "string \<Rightarrow> hre \<Rightarrow> error + contract_handle" where
  "ks_connect contractAddr w =
     (case get_contract_factory ''Counter'' w of
        Inl e \<Rightarrow> Inl e
      | Inr Counter \<Rightarrow> contract_attach contractAddr Counter (first_signer w))"

text \<open>Lines 18-19: the current time in seconds, ABI-encoded as a \<open>uint\<close>.\<close>

definition ks_encode_timestamp :: "hre \<Rightarrow> error + bytes" where
  "ks_encode_timestamp w = abi_encode_uint (ks_seconds (clock_ms w))"

text \<open>Line 23: \<open>const {0: boolValue, 1: bytesValue} = result\<close>, an
  object pattern that reads the properties \<open>0\<close> and \<open>1\<close> of whatever the call
  returned (\<open>undefined\<close> for a transaction response).\<close>

definition ks_destructure :: "jsval \<Rightarrow> jsval \<times> jsval" where
  "ks_destructure result = (js_index result 0, js_index result 1)"

text \<open>Lines 21-24: the read call, the destructuring of its result, the report.\<close>

definition ks_check ::
  "env_act list \<Rightarrow> string \<Rightarrow> contract_handle \<Rightarrow> bytes \<Rightarrow> hre \<Rightarrow> error + (jsval \<times> hre)" where
  "ks_check e1 contractAddr counterContract curretTimeStamp w =
     (case contract_invoke counterContract ''checkUpkeep'' (CheckUpkeep curretTimeStamp) e1 (chain w) of
        Inl e \<Rightarrow> Inl e
      | Inr (result, ch1) \<Rightarrow>
          (case ks_destructure result of
             (boolValue, bytesValue) \<Rightarrow>
               Inr (boolValue, console_log [''Contract '', contractAddr, '' checkUpkeep: '', js_show boolValue]
                                 (w\<lparr>chain := ch1\<rparr>))))"

text \<open>Lines 26-29: on a truthy answer, the \<open>performUpkeep(0x00)\<close> transaction and its hash.\<close>

definition ks_perform ::
  "env_act list \<Rightarrow> string \<Rightarrow> contract_handle \<Rightarrow> jsval \<Rightarrow> hre \<Rightarrow> error + hre" where
  "ks_perform e2 contractAddr counterContract boolValue w =
     (if js_truthy boolValue then
        (case arrayify_num 0 of
           Inl e \<Rightarrow> Inl e
         | Inr performData \<Rightarrow>
             (case contract_invoke counterContract ''performUpkeep'' (PerformUpkeep performData) e2 (chain w) of
                Inl e \<Rightarrow> Inl e
              | Inr (resultPUpkeep, ch2) \<Rightarrow>
                  Inr (console_log [''Contract '', contractAddr,
                         '' performUpkeep was called. Transaction Hash: '', js_show (js_hash resultPUpkeep)]
                         (w\<lparr>chain := ch2\<rparr>))))
      else Inr w)"

text \<open>Lines 5-30: the action, the blocks above in the order of the source.\<close>

definition keeper_simulation_action ::
  "env_act list \<Rightarrow> env_act list \<Rightarrow> string \<Rightarrow> hre \<Rightarrow> error + hre" where
  "keeper_simulation_action e1 e2 contractAddr w =
     (let w1 = ks_banner contractAddr w in
      case ks_connect contractAddr w1 of
        Inl e \<Rightarrow> Inl e
      | Inr counterContract \<Rightarrow>
          (case ks_encode_timestamp w1 of
             Inl e \<Rightarrow> Inl e
           | Inr curretTimeStamp \<Rightarrow>
               (case ks_check e1 contractAddr counterContract curretTimeStamp w1 of
                  Inl e \<Rightarrow> Inl e
                | Inr (boolValue, w2) \<Rightarrow> ks_perform e2 contractAddr counterContract boolValue w2)))"

section \<open>Abstract specification of a keeper round\<close>

text \<open>
  What one keeper round promises for the Counter, stated on the contract's own
  state: if the upkeep is due at time \<open>now\<close> it is performed at \<open>now\<close>, otherwise
  the Counter is left alone.  The theorem \<open>keeper_simulation_refines\<close> shows that
  the task followed by the mining of the next block implements it.
\<close>

definition keeper_spec :: "uint \<Rightarrow> counter_st \<Rightarrow> counter_st" where
  "keeper_spec now c = (if counter_checkUpkeep now c then counter_performUpkeep now c else c)"

section \<open>Lemmas on the blocks\<close>

lemma ks_connect_ok:
  assumes "artifacts w ''Counter'' = Some i" and "signers w = sg # sgs" and "parse_address s = Some a"
  shows "ks_connect s w = Inr \<lparr>target = Resolved a, iface = i, signer = Some sg\<rparr>"
  using assms by (simp add: ks_connect_def get_contract_factory_def first_signer_def contract_attach_resolved)

lemma ks_encode_timestamp_ok:
  assumes "0 \<le> clock_ms w" and "clock_ms w div 1000 < 2 ^ 256"
  shows "ks_encode_timestamp w = Inr (map of_nat (digits_be 256 32 (nat (clock_ms w div 1000))))"
  using assms by (simp add: ks_encode_timestamp_def abi_encode_uint_def ks_seconds_def)

lemma ks_check_counter:
  assumes "iface k ''checkUpkeep'' = Some View" and "signer k = Some sg" and "target k = Resolved a"
    and "accts (env_run es (chain w)) a = Some (CounterC c)"
  shows "ks_check es s k ts w =
     Inr (JBool (counter_checkUpkeep (block_time (env_run es (chain w))) c),
          console_log [''Contract '', s, '' checkUpkeep: '',
                       js_show (JBool (counter_checkUpkeep (block_time (env_run es (chain w))) c))]
            (w\<lparr>chain := env_run es (chain w)\<rparr>))"
proof -
  have ex: "exec_call (env_run es (chain w)) a (CheckUpkeep ts) =
      Inr (env_run es (chain w), RBoolBytes (counter_checkUpkeep (block_time (env_run es (chain w))) c) [])"
    using assms(4) by (simp add: exec_call.simps)
  have "contract_invoke k ''checkUpkeep'' (CheckUpkeep ts) es (chain w) =
      Inr (JArr [JBool (counter_checkUpkeep (block_time (env_run es (chain w))) c), JBytes []],
           env_run es (chain w))"
    by (rule contract_invoke_call [of k _ View, OF assms(1) _ assms(2,3) ex]) (simp_all add: is_constant_def)
  then show ?thesis by (simp add: ks_check_def ks_destructure_def)
qed

lemma ks_check_send:
  assumes "iface k ''checkUpkeep'' = Some NonPayable" and "signer k = Some sg" and "target k = Resolved a"
    and "accts (env_run es (chain w)) a = Some (CounterC c)"
  shows "ks_check es s k ts w =
     Inr (JUndef, console_log [''Contract '', s, '' checkUpkeep: '', ''undefined'']
                    (w\<lparr>chain := snd (submit (env_run es (chain w)) a (CheckUpkeep ts))\<rparr>))"
proof -
  have "contract_invoke k ''checkUpkeep'' (CheckUpkeep ts) es (chain w) =
      Inr (JTx (tx_count (env_run es (chain w))), snd (submit (env_run es (chain w)) a (CheckUpkeep ts)))"
    by (rule contract_invoke_send [of k _ NonPayable, OF assms(1) _ assms(2,3)])
       (use assms(4) in \<open>simp_all add: is_constant_def exec_call.simps\<close>)
  then show ?thesis by (simp add: ks_check_def ks_destructure_def)
qed

lemma ks_check_no_counter:
  assumes "iface k ''checkUpkeep'' = Some View" and "signer k = Some sg" and "target k = Resolved a"
    and "\<forall>c. accts (env_run es (chain w)) a \<noteq> Some (CounterC c)"
  shows "ks_check es s k ts w = Inl (CallException a)"
  using assms
  by (auto simp: ks_check_def ks_destructure_def contract_invoke_def is_constant_def exec_call.simps Let_def
           split: option.splits contract.splits)

lemma keeper_simulation_action_blocks:
  assumes "ks_connect s (ks_banner s w) = Inr k" and "ks_encode_timestamp (ks_banner s w) = Inr ts"
    and "ks_check e1 s k ts (ks_banner s w) = Inr (v, w2)"
  shows "keeper_simulation_action e1 e2 s w = ks_perform e2 s k v w2"
  using assms by (simp add: keeper_simulation_action_def)

lemma keeper_simulation_prefix:
  assumes "artifacts w ''Counter'' = Some counter_abi"
    and "signers w \<noteq> []"
    and "parse_address s = Some a"
    and "0 \<le> clock_ms w" and "clock_ms w div 1000 < 2 ^ 256"
    and "accts (env_run e1 (chain w)) a = Some (CounterC c)"
  obtains k sg where "keeper_simulation_action e1 e2 s w =
      ks_perform e2 s k (JBool (counter_checkUpkeep (block_time (env_run e1 (chain w))) c))
        (console_log [''Contract '', s, '' checkUpkeep: '',
                      js_show (JBool (counter_checkUpkeep (block_time (env_run e1 (chain w))) c))]
           ((ks_banner s w)\<lparr>chain := env_run e1 (chain w)\<rparr>))"
    and "iface k ''performUpkeep'' = Some NonPayable" and "signer k = Some sg" and "target k = Resolved a"
proof -
  obtain sg sgs where sg: "signers w = sg # sgs" using assms(2) by (cases "signers w") auto
  define k where "k = \<lparr>target = Resolved a, iface = counter_abi, signer = Some sg\<rparr>"
  have con: "ks_connect s (ks_banner s w) = Inr k"
    using assms(1,3) sg unfolding k_def by (intro ks_connect_ok) (simp_all add: ks_banner_def)
  have enc: "ks_encode_timestamp (ks_banner s w) = Inr (map of_nat (digits_be 256 32 (nat (clock_ms w div 1000))))"
    using ks_encode_timestamp_ok [of "ks_banner s w"] assms(4,5) by (simp add: ks_banner_def)
  have chk: "ks_check e1 s k (map of_nat (digits_be 256 32 (nat (clock_ms w div 1000)))) (ks_banner s w) =
     Inr (JBool (counter_checkUpkeep (block_time (env_run e1 (chain w))) c),
          console_log [''Contract '', s, '' checkUpkeep: '',
                       js_show (JBool (counter_checkUpkeep (block_time (env_run e1 (chain w))) c))]
            ((ks_banner s w)\<lparr>chain := env_run e1 (chain w)\<rparr>))"
    using ks_check_counter [where w = "ks_banner s w" and k = k and a = a] assms(6)
    by (simp add: k_def counter_abi_simps ks_banner_def)
  show ?thesis
    using that [OF keeper_simulation_action_blocks [OF con enc chk]]
    by (simp add: k_def counter_abi_simps)
qed

lemma ks_perform_falsy: "\<not> js_truthy v \<Longrightarrow> ks_perform es s k v w = Inr w"
  by (simp add: ks_perform_def)

lemma ks_perform_counter:
  assumes "iface k ''performUpkeep'' = Some NonPayable" and "signer k = Some sg" and "target k = Resolved a"
    and "accts (env_run es (chain w)) a = Some (CounterC c)"
  shows "ks_perform es s k (JBool True) w =
     Inr (console_log [''Contract '', s, '' performUpkeep was called. Transaction Hash: '',
                       show_hash (tx_count (env_run es (chain w)))]
            (w\<lparr>chain := snd (submit (env_run es (chain w)) a (PerformUpkeep [0]))\<rparr>))"
proof -
  have "contract_invoke k ''performUpkeep'' (PerformUpkeep [0]) es (chain w) =
      Inr (JTx (tx_count (env_run es (chain w))), snd (submit (env_run es (chain w)) a (PerformUpkeep [0])))"
    by (rule contract_invoke_send [of k _ NonPayable, OF assms(1) _ assms(2,3)])
       (use assms(4) in \<open>simp_all add: is_constant_def exec_call.simps\<close>)
  then show ?thesis by (simp add: ks_perform_def arrayify_zero)
qed

lemma ks_perform_false: "ks_perform e2 s k (JBool False) w = Inr w"
  by (simp add: ks_perform_def)

text \<open>The ledger after a run: one \<open>performUpkeep\<close> submitted after \<open>e2\<close> when the
  read said true, the chain as read otherwise.\<close>

lemma keeper_simulation_chain:
  assumes "artifacts w ''Counter'' = Some counter_abi"
    and "signers w \<noteq> []"
    and "parse_address s = Some a"
    and "0 \<le> clock_ms w" and "clock_ms w div 1000 < 2 ^ 256"
    and "accts (env_run e1 (chain w)) a = Some (CounterC c)"
  shows "\<exists>w'. keeper_simulation_action e1 e2 s w = Inr w'
     \<and> chain w' = (if counter_checkUpkeep (block_time (env_run e1 (chain w))) c
                   then snd (submit (env_run e2 (env_run e1 (chain w))) a (PerformUpkeep [0]))
                   else env_run e1 (chain w))"
proof -
  define ch1 where "ch1 = env_run e1 (chain w)"
  define w2 where "w2 = console_log [''Contract '', s, '' checkUpkeep: '',
                        js_show (JBool (counter_checkUpkeep (block_time ch1) c))] ((ks_banner s w)\<lparr>chain := ch1\<rparr>)"
  obtain k sg where act: "keeper_simulation_action e1 e2 s w =
      ks_perform e2 s k (JBool (counter_checkUpkeep (block_time ch1) c)) w2"
    and k: "iface k ''performUpkeep'' = Some NonPayable" "signer k = Some sg" "target k = Resolved a"
    using keeper_simulation_prefix [OF assms] unfolding ch1_def w2_def by blast
  obtain c' where "accts (env_run e2 ch1) a = Some (CounterC c')"
    using assms(6) unfolding ch1_def by (rule env_run_counter)
  then have c2: "accts (env_run e2 (chain w2)) a = Some (CounterC c')"
    by (simp add: w2_def ks_banner_def)
  show ?thesis
  proof (cases "counter_checkUpkeep (block_time ch1) c")
    case True
    with act ks_perform_counter [where es = e2 and w = w2, OF k c2] show ?thesis
      by (simp add: w2_def ks_banner_def ch1_def)
  next
    case False
    with act show ?thesis by (simp add: ks_perform_false w2_def ks_banner_def ch1_def)
  qed
qed

lemma keeper_simulation_frame:
  "keeper_simulation_action e1 e2 s w = Inr w' \<Longrightarrow>
     artifacts w' = artifacts w \<and> signers w' = signers w \<and> clock_ms w' = clock_ms w
     \<and> deployments w' = deployments w"
  by (auto simp: keeper_simulation_action_def ks_check_def ks_destructure_def ks_perform_def ks_banner_def console_log_def Let_def
           split: sum.splits prod.splits if_splits)

lemma keeper_spec_done: "\<not> counter_checkUpkeep now (keeper_spec now c)"
  by (simp add: keeper_spec_def counter_checkUpkeep_def counter_performUpkeep_def)

text \<open>The task moves the ledger only by ledger steps.\<close>

lemma ks_check_steps: "ks_check es s k ts w = Inr (v, w') \<Longrightarrow> chain_step\<^sup>*\<^sup>* (chain w) (chain w')"
  by (auto simp: ks_check_def ks_destructure_def Let_def split: sum.splits prod.splits dest: contract_invoke_steps)

lemma ks_perform_steps: "ks_perform es s k v w = Inr w' \<Longrightarrow> chain_step\<^sup>*\<^sup>* (chain w) (chain w')"
  by (auto simp: ks_perform_def split: if_splits sum.splits prod.splits dest: contract_invoke_steps)

lemma keeper_simulation_steps:
  "keeper_simulation_action e1 e2 s w = Inr w' \<Longrightarrow> chain_step\<^sup>*\<^sup>* (chain w) (chain w')"
  by (auto simp: keeper_simulation_action_def ks_banner_def Let_def split: sum.splits prod.splits
           dest!: ks_check_steps ks_perform_steps intro: rtranclp_trans)

section \<open>Behaviour\<close>

text \<open>
  C1. With the Counter artifact compiled as the specification describes, a
  signer, an address argument, a clock within range and a Counter at that
  address, the task does exactly this: it prints its banner; it reads
  \<open>checkUpkeep\<close> on the chain as it stands after the moves \<open>e1\<close>, without changing
  it, and prints the answer; if the answer is true it submits one
  \<open>performUpkeep(0x00)\<close> transaction to the pool of the chain as it stands after
  \<open>e2\<close> and prints its hash; if false it submits nothing.
\<close>

lemma keeper_simulation_cycle:
  assumes "artifacts w ''Counter'' = Some counter_abi"
    and "signers w \<noteq> []"
    and "parse_address s = Some a"
    and "0 \<le> clock_ms w" and "clock_ms w div 1000 < 2 ^ 256"
    and "accts (env_run e1 (chain w)) a = Some (CounterC c)"
  shows "keeper_simulation_action e1 e2 s w =
    (let ch1 = env_run e1 (chain w);
         upkeep = counter_checkUpkeep (block_time ch1) c;
         lines = [join_sp [''Calling Counter contract simulating a Keeper call '', s, '' on network '', network_name w],
                  join_sp [''Contract '', s, '' checkUpkeep: '', if upkeep then ''true'' else ''false'']]
     in if upkeep
        then Inr (w\<lparr>chain := snd (submit (env_run e2 ch1) a (PerformUpkeep [0])),
                    out := out w @ lines @
                      [join_sp [''Contract '', s, '' performUpkeep was called. Transaction Hash: '',
                                show_hash (tx_count (env_run e2 ch1))]]\<rparr>)
        else Inr (w\<lparr>chain := ch1, out := out w @ lines\<rparr>))"
proof -
  define ch1 where "ch1 = env_run e1 (chain w)"
  obtain k sg where act: "keeper_simulation_action e1 e2 s w =
      ks_perform e2 s k (JBool (counter_checkUpkeep (block_time ch1) c))
        (console_log [''Contract '', s, '' checkUpkeep: '', js_show (JBool (counter_checkUpkeep (block_time ch1) c))]
           ((ks_banner s w)\<lparr>chain := ch1\<rparr>))"
    and k: "iface k ''performUpkeep'' = Some NonPayable" "signer k = Some sg" "target k = Resolved a"
    using keeper_simulation_prefix [OF assms] unfolding ch1_def by blast
  obtain c' where c': "accts (env_run e2 ch1) a = Some (CounterC c')"
    using assms(6) unfolding ch1_def by (rule env_run_counter)
  show ?thesis
  proof (cases "counter_checkUpkeep (block_time ch1) c")
    case True
    have "ks_perform e2 s k (JBool True)
            (console_log [''Contract '', s, '' checkUpkeep: '', ''true''] ((ks_banner s w)\<lparr>chain := ch1\<rparr>)) =
          Inr (console_log [''Contract '', s, '' performUpkeep was called. Transaction Hash: '',
                            show_hash (tx_count (env_run e2 ch1))]
                 ((console_log [''Contract '', s, '' checkUpkeep: '', ''true''] ((ks_banner s w)\<lparr>chain := ch1\<rparr>))
                    \<lparr>chain := snd (submit (env_run e2 ch1) a (PerformUpkeep [0]))\<rparr>))"
      using ks_perform_counter [where k = k and a = a and es = e2, OF k] c' by simp
    with True act show ?thesis
      by (simp add: Let_def ch1_def [symmetric] ks_banner_def console_log_def)
  next
    case False
    with act show ?thesis
      by (simp add: Let_def ch1_def [symmetric] ks_perform_false ks_banner_def console_log_def)
  qed
qed

theorem keeper_simulation_cycle_witness:
  "map_sum id (\<lambda>w. (mempool (chain w), out w))
     (keeper_simulation_action [] [] ''0x0000000000000000000000000000000000000001'' example_hre)
   = Inr ([(0, 1, PerformUpkeep [0])],
          [''Calling Counter contract simulating a Keeper call  0x0000000000000000000000000000000000000001  on network  hardhat'',
           ''Contract  0x0000000000000000000000000000000000000001  checkUpkeep:  true'',
           ''Contract  0x0000000000000000000000000000000000000001  performUpkeep was called. Transaction Hash:  0x0000000000000000000000000000000000000000000000000000000000000000''])"
proof -
  have a: "parse_address ''0x0000000000000000000000000000000000000001'' = Some 1"
    by (simp add: model_simps)
  have c: "accts (env_run [] (chain example_hre)) 1 = Some (CounterC \<lparr>counter = 0, interval = 10, lastTimeStamp = 50\<rparr>)"
    by (simp add: model_simps env_run_def)
  show ?thesis
    using keeper_simulation_cycle [OF _ _ a _ _ c, of "[]"]
    by (simp add: model_simps env_run_def submit_def counter_checkUpkeep_def)
qed

text \<open>
  C14. The timestamp argument is the clock in whole seconds (rounded down) as
  one 32-byte ABI word that decodes to it; a clock before 1970 or beyond the
  \<open>uint256\<close> range makes the encoder throw before any call is made.
\<close>

theorem ks_encode_timestamp_roundtrip:
  "(case ks_encode_timestamp w of
      Inr bs \<Rightarrow> length bs = 32 \<and> abi_decode_uint bs = clock_ms w div 1000
    | Inl e \<Rightarrow> e = AbiOutOfBounds (clock_ms w div 1000)
               \<and> (clock_ms w < 0 \<or> 2 ^ 256 \<le> clock_ms w div 1000))"
proof (cases "ks_encode_timestamp w")
  case (Inl e)
  then show ?thesis
    by (auto simp: ks_encode_timestamp_def abi_encode_uint_def ks_seconds_def split: if_splits)
next
  case (Inr bs)
  then have "abi_encode_uint (ks_seconds (clock_ms w)) = Inr bs" by (simp add: ks_encode_timestamp_def)
  then show ?thesis using Inr abi_decode_encode by (simp add: ks_seconds_def)
qed

text \<open>
  C9. The branch depends on the compiled ABI, not only on the Counter: if the
  Counter artifact declares \<open>checkUpkeep\<close> non-view (as the keeper-compatible
  interface does), ethers sends it as a transaction, \<open>result[0]\<close> of the
  response is \<open>undefined\<close>, the task prints \<open>checkUpkeep: undefined\<close> and never
  sends \<open>performUpkeep\<close>, whatever the Counter's state.
\<close>

theorem ks_nonview_abi_never_performs:
  assumes "artifacts w ''Counter'' = Some (counter_abi(''checkUpkeep'' \<mapsto> NonPayable))"
    and "signers w \<noteq> []"
    and "parse_address s = Some a"
    and "0 \<le> clock_ms w" and "clock_ms w div 1000 < 2 ^ 256"
    and "accts (env_run e1 (chain w)) a = Some (CounterC c)"
  shows "keeper_simulation_action e1 e2 s w =
     Inr (w\<lparr>chain := snd (submit (env_run e1 (chain w)) a
                           (CheckUpkeep (map of_nat (digits_be 256 32 (nat (clock_ms w div 1000)))))),
            out := out w @
              [join_sp [''Calling Counter contract simulating a Keeper call '', s, '' on network '', network_name w],
               join_sp [''Contract '', s, '' checkUpkeep: '', ''undefined'']]\<rparr>)"
proof -
  obtain sg sgs where sg: "signers w = sg # sgs" using assms(2) by (cases "signers w") auto
  define k where "k = \<lparr>target = Resolved a, iface = counter_abi(''checkUpkeep'' \<mapsto> NonPayable), signer = Some sg\<rparr>"
  define ts :: bytes where "ts = map of_nat (digits_be 256 32 (nat (clock_ms w div 1000)))"
  have con: "ks_connect s (ks_banner s w) = Inr k"
    using assms(1,3) sg unfolding k_def by (intro ks_connect_ok) (simp_all add: ks_banner_def)
  have enc: "ks_encode_timestamp (ks_banner s w) = Inr ts"
    using ks_encode_timestamp_ok [of "ks_banner s w"] assms(4,5) by (simp add: ks_banner_def ts_def)
  have chk: "ks_check e1 s k ts (ks_banner s w) =
     Inr (JUndef, console_log [''Contract '', s, '' checkUpkeep: '', ''undefined'']
                    ((ks_banner s w)\<lparr>chain := snd (submit (env_run e1 (chain w)) a (CheckUpkeep ts))\<rparr>))"
    using ks_check_send [where w = "ks_banner s w" and k = k and a = a] assms(6)
    by (simp add: k_def ks_banner_def)
  show ?thesis
    using con enc chk
    by (simp add: keeper_simulation_action_def ks_perform_falsy ks_banner_def console_log_def ts_def)
qed

theorem ks_nonview_abi_never_performs_witness:
  "map_sum id (\<lambda>w. (mempool (chain w), last (out w)))
     (keeper_simulation_action [] [] ''0x0000000000000000000000000000000000000001''
        (example_hre\<lparr>artifacts := (artifacts example_hre)(''Counter'' \<mapsto> counter_abi(''checkUpkeep'' \<mapsto> NonPayable))\<rparr>))
   = Inr ([(0, 1, CheckUpkeep (map of_nat (digits_be 256 32 1700000000)))],
          ''Contract  0x0000000000000000000000000000000000000001  checkUpkeep:  undefined'')"
proof -
  have a: "parse_address ''0x0000000000000000000000000000000000000001'' = Some 1"
    by (simp add: model_simps)
  have c: "accts (env_run [] (chain example_hre)) 1 = Some (CounterC \<lparr>counter = 0, interval = 10, lastTimeStamp = 50\<rparr>)"
    by (simp add: model_simps env_run_def)
  show ?thesis
    using ks_nonview_abi_never_performs
      [of "example_hre\<lparr>artifacts := (artifacts example_hre)(''Counter'' \<mapsto> counter_abi(''checkUpkeep'' \<mapsto> NonPayable))\<rparr>"
          "''0x0000000000000000000000000000000000000001''" 1 "[]", OF _ _ a]
      c
    by (simp add: example_hre_def example_chain_def env_run_def submit_def)
qed

text \<open>
  C5. Refinement of the abstract keeper round: when the pool is empty at the
  read and nothing happens during the submission, running the task and then
  mining the next block changes the Counter exactly as \<open>keeper_spec\<close> says,
  with the time read by \<open>checkUpkeep\<close> as \<open>now\<close> (blocks are mined at the time
  of the chain that was read).
\<close>

theorem keeper_simulation_refines:
  assumes "artifacts w ''Counter'' = Some counter_abi"
    and "signers w \<noteq> []"
    and "parse_address s = Some a"
    and "0 \<le> clock_ms w" and "clock_ms w div 1000 < 2 ^ 256"
    and "accts (env_run e1 (chain w)) a = Some (CounterC c)"
    and "mempool (env_run e1 (chain w)) = []"
  shows "\<exists>w'. keeper_simulation_action e1 [] s w = Inr w'
          \<and> accts (mine (chain w')) a = Some (CounterC (keeper_spec (block_time (env_run e1 (chain w))) c))"
proof -
  define ch1 where "ch1 = env_run e1 (chain w)"
  obtain w' where run: "keeper_simulation_action e1 [] s w = Inr w'"
    and ch: "chain w' = (if counter_checkUpkeep (block_time ch1) c
                         then snd (submit ch1 a (PerformUpkeep [0])) else ch1)"
    using keeper_simulation_chain [OF assms(1-6), of "[]"] unfolding ch1_def by (auto simp: env_run_def)
  have c1: "accts ch1 a = Some (CounterC c)" and m1: "mempool ch1 = []"
    using assms(6,7) by (simp_all add: ch1_def)
  have "accts (mine (chain w')) a = Some (CounterC (keeper_spec (block_time ch1) c))"
    using ch mine_lone_perform [OF m1 c1] mine_idle [OF m1] c1 by (simp add: keeper_spec_def)
  with run show ?thesis unfolding ch1_def by blast
qed

theorem keeper_simulation_refines_witness:
  "\<exists>w'. keeper_simulation_action [] [] ''0x0000000000000000000000000000000000000001'' example_hre = Inr w'
     \<and> accts (mine (chain w')) 1 = Some (CounterC \<lparr>counter = 1, interval = 10, lastTimeStamp = 100\<rparr>)"
proof -
  have a: "parse_address ''0x0000000000000000000000000000000000000001'' = Some 1"
    by (simp add: model_simps)
  have c: "accts (env_run [] (chain example_hre)) 1 = Some (CounterC \<lparr>counter = 0, interval = 10, lastTimeStamp = 50\<rparr>)"
    and m: "mempool (env_run [] (chain example_hre)) = []"
    by (simp_all add: model_simps env_run_def)
  have "block_time (env_run [] (chain example_hre)) = 100"
    by (simp add: model_simps env_run_def)
  then show ?thesis
    using keeper_simulation_refines [OF _ _ a _ _ c m]
    by (simp add: model_simps keeper_spec_def counter_checkUpkeep_def counter_performUpkeep_def)
qed

text \<open>
  C10. On an address that holds no Counter (no code, or another contract),
  the \<open>checkUpkeep\<close> read returns no data or reverts, and the task throws a
  call exception before sending anything.
\<close>

theorem ks_no_counter:
  assumes "artifacts w ''Counter'' = Some counter_abi"
    and "signers w \<noteq> []"
    and "parse_address s = Some a"
    and "0 \<le> clock_ms w" and "clock_ms w div 1000 < 2 ^ 256"
    and "\<forall>c. accts (env_run e1 (chain w)) a \<noteq> Some (CounterC c)"
  shows "keeper_simulation_action e1 e2 s w = Inl (CallException a)"
proof -
  obtain sg sgs where sg: "signers w = sg # sgs" using assms(2) by (cases "signers w") auto
  define k where "k = \<lparr>target = Resolved a, iface = counter_abi, signer = Some sg\<rparr>"
  have con: "ks_connect s (ks_banner s w) = Inr k"
    using assms(1,3) sg unfolding k_def by (intro ks_connect_ok) (simp_all add: ks_banner_def)
  have enc: "ks_encode_timestamp (ks_banner s w) = Inr (map of_nat (digits_be 256 32 (nat (clock_ms w div 1000))))"
    using ks_encode_timestamp_ok [of "ks_banner s w"] assms(4,5) by (simp add: ks_banner_def)
  have chk: "ks_check e1 s k (map of_nat (digits_be 256 32 (nat (clock_ms w div 1000)))) (ks_banner s w) =
               Inl (CallException a)"
    using ks_check_no_counter [where w = "ks_banner s w" and k = k and a = a and es = e1] assms(6)
    by (simp add: k_def counter_abi_simps ks_banner_def)
  from con enc chk show ?thesis by (simp add: keeper_simulation_action_def)
qed

theorem ks_no_counter_witness:
  "keeper_simulation_action [] [] ''0x0000000000000000000000000000000000000002'' example_hre = Inl (CallException 2)"
proof -
  have a: "parse_address ''0x0000000000000000000000000000000000000002'' = Some 2"
    by (simp add: model_simps)
  show ?thesis
    by (rule ks_no_counter [OF _ _ a]) (simp_all add: model_simps env_run_def)
qed

text \<open>
  C7. On a reachable ledger the Counter's \<open>uint256\<close> subtraction
  \<open>block.timestamp - lastTimeStamp\<close> never wraps.  So the task sends
  \<open>performUpkeep\<close> exactly when the interval is below the elapsed time as
  natural numbers, and otherwise leaves the chain as it read it.
\<close>

theorem ks_decision_unwrapped:
  assumes "artifacts w ''Counter'' = Some counter_abi"
    and "signers w \<noteq> []"
    and "parse_address s = Some a"
    and "0 \<le> clock_ms w" and "clock_ms w div 1000 < 2 ^ 256"
    and "reachable_chain (env_run e1 (chain w))"
    and "accts (env_run e1 (chain w)) a = Some (CounterC c)"
  shows "\<exists>w'. keeper_simulation_action e1 e2 s w = Inr w'
     \<and> chain w' = (if unat (interval c) < unat (block_time (env_run e1 (chain w))) - unat (lastTimeStamp c)
                   then snd (submit (env_run e2 (env_run e1 (chain w))) a (PerformUpkeep [0]))
                   else env_run e1 (chain w))"
  using keeper_simulation_chain [OF assms(1-5,7), of e2] counter_check_nowrap [OF assms(6,7)]
  by simp

theorem ks_decision_unwrapped_witness:
  "\<exists>w'. keeper_simulation_action [] [] ''0x0000000000000000000000000000000000000001'' example_hre = Inr w'
     \<and> chain w' = snd (submit example_chain 1 (PerformUpkeep [0]))"
proof -
  have a: "parse_address ''0x0000000000000000000000000000000000000001'' = Some 1"
    by (simp add: model_simps)
  have r: "reachable_chain (env_run [] (chain example_hre))"
    using example_chain_reachable by (simp add: example_hre_def env_run_def)
  have c: "accts (env_run [] (chain example_hre)) 1 = Some (CounterC \<lparr>counter = 0, interval = 10, lastTimeStamp = 50\<rparr>)"
    by (simp add: model_simps env_run_def)
  show ?thesis
    using ks_decision_unwrapped [OF _ _ a _ _ r c, of "[]"]
    by (simp add: model_simps env_run_def)
qed

text \<open>
  C6. Running the task twice in the same block performs the upkeep at most
  once.  The pool starts empty; a block is mined between the two runs and
  after the second.  The Counter then ends as one abstract keeper round at
  that block's time leaves it: the second read sees the first run's
  \<open>performUpkeep\<close> and answers false.
\<close>

theorem ks_no_double_perform:
  assumes "artifacts w ''Counter'' = Some counter_abi"
    and "signers w \<noteq> []"
    and "parse_address s = Some a"
    and "0 \<le> clock_ms w" and "clock_ms w div 1000 < 2 ^ 256"
    and "accts (chain w) a = Some (CounterC c)"
    and "mempool (chain w) = []"
  shows "\<exists>w1 w2. keeper_simulation_action [] [] s w = Inr w1
     \<and> keeper_simulation_action [Mine] [] s w1 = Inr w2
     \<and> accts (mine (chain w2)) a = Some (CounterC (keeper_spec (block_time (chain w)) c))"
proof -
  define now where "now = block_time (chain w)"
  have c0: "accts (env_run [] (chain w)) a = Some (CounterC c)" using assms(6) by (simp add: env_run_def)
  obtain w1 where run1: "keeper_simulation_action [] [] s w = Inr w1"
    and ch1: "chain w1 = (if counter_checkUpkeep now c then snd (submit (chain w) a (PerformUpkeep [0]))
                          else chain w)"
    using keeper_simulation_chain [OF assms(1-5) c0, of "[]"] unfolding now_def by (auto simp: env_run_def)
  have fr: "artifacts w1 = artifacts w \<and> signers w1 = signers w \<and> clock_ms w1 = clock_ms w"
    using keeper_simulation_frame [OF run1] by simp
  have m1: "accts (env_run [Mine] (chain w1)) a = Some (CounterC (keeper_spec now c))"
    using ch1 mine_lone_perform [OF assms(7,6)] mine_idle [OF assms(7)] assms(6)
    by (simp add: env_run_def keeper_spec_def now_def)
  have t1: "block_time (env_run [Mine] (chain w1)) = now"
    using ch1 mine_frame [of "chain w1"] by (simp add: env_run_def now_def submit_def)
  obtain w2 where run2: "keeper_simulation_action [Mine] [] s w1 = Inr w2"
    and ch2: "chain w2 = env_run [Mine] (chain w1)"
    using keeper_simulation_chain [of w1 s a "[Mine]" "keeper_spec now c" "[]"] fr assms(1-5) m1 t1 keeper_spec_done
    by auto
  have "mempool (chain w2) = []" using ch2 mine_frame [of "chain w1"] by (simp add: env_run_def)
  then have "accts (mine (chain w2)) a = Some (CounterC (keeper_spec now c))"
    using ch2 m1 by (simp add: mine_idle)
  with run1 run2 show ?thesis unfolding now_def by blast
qed

theorem ks_no_double_perform_witness:
  "\<exists>w1 w2. keeper_simulation_action [] [] ''0x0000000000000000000000000000000000000001'' example_hre = Inr w1
     \<and> keeper_simulation_action [Mine] [] ''0x0000000000000000000000000000000000000001'' w1 = Inr w2
     \<and> accts (mine (chain w2)) 1 = Some (CounterC \<lparr>counter = 1, interval = 10, lastTimeStamp = 100\<rparr>)"
proof -
  have a: "parse_address ''0x0000000000000000000000000000000000000001'' = Some 1"
    by (simp add: model_simps)
  have c: "accts (chain example_hre) 1 = Some (CounterC \<lparr>counter = 0, interval = 10, lastTimeStamp = 50\<rparr>)"
    and m: "mempool (chain example_hre) = []" and t: "block_time (chain example_hre) = 100"
    by (simp_all add: model_simps)
  show ?thesis
    using ks_no_double_perform [OF _ _ a _ _ c m] t
    by (simp add: model_simps keeper_spec_def counter_checkUpkeep_def counter_performUpkeep_def)
qed

text \<open>
  C17. Liveness of the keeper round: from any reachable ledger with a
  Counter, the world can make the upkeep due.  Block time advances by the
  Counter's interval plus one, and the clock must not reach \<open>2^256\<close>.  The
  next run of the task then sends \<open>performUpkeep\<close>.
\<close>

theorem ks_upkeep_eventually:
  assumes "artifacts w ''Counter'' = Some counter_abi"
    and "signers w \<noteq> []"
    and "parse_address s = Some a"
    and "0 \<le> clock_ms w" and "clock_ms w div 1000 < 2 ^ 256"
    and "reachable_chain (chain w)"
    and "accts (chain w) a = Some (CounterC c)"
    and "unat (block_time (chain w)) + unat (interval c) + 1 < 2 ^ 256"
  shows "\<exists>w'. keeper_simulation_action [Advance (interval c + 1)] [] s w = Inr w'
     \<and> chain w' = snd (submit (advance_time (interval c + 1) (chain w)) a (PerformUpkeep [0]))"
proof -
  define d where "d = interval c + 1"
  define ch1 where "ch1 = env_run [Advance d] (chain w)"
  have ch1_adv: "ch1 = advance_time d (chain w)" by (simp add: ch1_def env_run_def)
  have d: "unat d = unat (interval c) + 1"
    using assms(8) unfolding d_def by (simp add: unat_add_lem [THEN iffD1])
  have t1: "unat (block_time ch1) = unat (block_time (chain w)) + unat (interval c) + 1"
    using assms(8) d unfolding ch1_adv advance_time_def
    by (simp add: unat_add_lem [THEN iffD1])
  have c1: "accts ch1 a = Some (CounterC c)" using assms(7) by (simp add: ch1_adv advance_time_def)
  have r1: "reachable_chain ch1" unfolding ch1_def using chain_steps_keep [OF env_run_steps assms(6)] by blast
  have "lastTimeStamp c \<le> block_time (chain w)"
    using reachable_chain_inv [OF assms(6)] assms(7) by (auto simp: chain_inv_def counters_ok_def)
  then have "unat (lastTimeStamp c) \<le> unat (block_time (chain w))" by (simp add: word_le_nat_alt)
  with t1 have due: "counter_checkUpkeep (block_time ch1) c"
    using counter_check_nowrap [OF r1 c1] by simp
  have c0: "accts (env_run [Advance d] (chain w)) a = Some (CounterC c)" using c1 by (simp add: ch1_def)
  from keeper_simulation_chain [OF assms(1-5) c0, of "[]"] due show ?thesis
    by (simp add: ch1_def [symmetric] ch1_adv d_def env_run_def)
qed

theorem ks_upkeep_eventually_witness:
  "\<exists>w'. keeper_simulation_action [Advance 11] [] ''0x0000000000000000000000000000000000000001''
           (example_hre\<lparr>chain := mine (snd (submit example_chain 1 (PerformUpkeep [0])))\<rparr>) = Inr w'
     \<and> chain w' = snd (submit (advance_time 11 (mine (snd (submit example_chain 1 (PerformUpkeep [0]))))) 1
                                (PerformUpkeep [0]))"
proof -
  define ch where "ch = mine (snd (submit example_chain 1 (PerformUpkeep [0])))"
  have s1: "chain_step example_chain (snd (submit example_chain 1 (PerformUpkeep [0])))" by (rule submit_step)
  have s2: "chain_step (snd (submit example_chain 1 (PerformUpkeep [0]))) ch"
    using chain_step.env [of "snd (submit example_chain 1 (PerformUpkeep [0]))" Mine] by (simp add: ch_def)
  have r: "reachable_chain (chain (example_hre\<lparr>chain := ch\<rparr>))"
    using reachable_chain.step [OF reachable_chain.step [OF example_chain_reachable s1] s2] by simp
  have a: "parse_address ''0x0000000000000000000000000000000000000001'' = Some 1"
    by (simp add: model_simps)
  have c: "accts (chain (example_hre\<lparr>chain := ch\<rparr>)) 1 = Some (CounterC \<lparr>counter = 1, interval = 10, lastTimeStamp = 100\<rparr>)"
    by (simp add: ch_def model_simps mine_def submit_def apply_tx_def exec_call.simps counter_performUpkeep_def)
  have t: "block_time ch = 100"
    by (simp add: ch_def model_simps mine_def submit_def apply_tx_def exec_call.simps)
  show ?thesis
    unfolding ch_def [symmetric] using ks_upkeep_eventually [OF _ _ a _ _ r c] t by (simp add: model_simps)
qed

end
