(* ===== verification/KeeperTestTask.thy ===== *)
theory KeeperTestTask
  imports Hre
begin

text \<open>
  The \<open>keeper-test\<close> task (src/tasks/keeper-tester/check-upkeep.js): given a
  KeeperSimulation address, it sends a \<open>checkUpkeep()\<close> transaction, prints
  its hash without waiting for it to be mined, then reads
  \<open>getUpkeepNeeded()\<close> and prints it.  \<open>e1\<close> are the moves of the world while
  the transaction is being submitted, \<open>e2\<close> those while the read is awaited:
  whether \<open>e2\<close> mines the pool decides whether the printed status includes
  the script's own transaction.
\<close>

definition keeper_test_decl :: task_decl where
  "keeper_test_decl =
     \<lparr>task_name = ''keeper-test'',
      task_desc = ''Keeper simulator calls as external contract to Counter Contract to checkUpKeep'',
      task_params = [''contract'']\<rparr>"

text \<open>Line 9: the banner.\<close>

definition kt_banner :: "string \<Rightarrow> hre \<Rightarrow> hre" where
  "kt_banner contractAddr w =
     console_log [''Calling Keeper simulator contract '', contractAddr, '' on network '', network_name w] w"

text \<open>Lines 10-17: the KeeperSimulation factory, the first signer, the binding.\<close>

definition kt_connect :: "string \<Rightarrow> hre \<Rightarrow> error + contract_handle" where
  "kt_connect contractAddr w =
     (case get_contract_factory ''KeeperSimulation'' w of
        Inl e \<Rightarrow> Inl e
      | Inr KeeperSimulation \<Rightarrow> contract_attach contractAddr KeeperSimulation (first_signer w))"

text \<open>Lines 18-19: the \<open>checkUpkeep()\<close> call and the report of \<open>result.hash\<close>.\<close>

definition kt_check :: "env_act list \<Rightarrow> string \<Rightarrow> contract_handle \<Rightarrow> hre \<Rightarrow> error + hre" where
  "kt_check e1 contractAddr keeperSimulationContract w =
     (case contract_invoke keeperSimulationContract ''checkUpkeep'' SimCheckUpkeep e1 (chain w) of
        Inl e \<Rightarrow> Inl e
      | Inr (result, ch1) \<Rightarrow>
          Inr (console_log [''Contract '', contractAddr,
                 '' external data request successfully called. Transaction Hash: '', js_show (js_hash result)]
                 (w\<lparr>chain := ch1\<rparr>)))"

text \<open>Line 21: the \<open>getUpkeepNeeded()\<close> read, awaited as an argument, and its report.\<close>

definition kt_status :: "env_act list \<Rightarrow> contract_handle \<Rightarrow> hre \<Rightarrow> error + hre" where
  "kt_status e2 keeperSimulationContract w =
     (case contract_invoke keeperSimulationContract ''getUpkeepNeeded'' GetUpkeepNeeded e2 (chain w) of
        Inl e \<Rightarrow> Inl e
      | Inr (status, ch2) \<Rightarrow>
          Inr (console_log [''The status of this upkeep is currently: '', js_show status] (w\<lparr>chain := ch2\<rparr>)))"

text \<open>Lines 5-22: the action.\<close>

definition keeper_test_action :: "env_act list \<Rightarrow> env_act list \<Rightarrow> string \<Rightarrow> hre \<Rightarrow> error + hre" where
  "keeper_test_action e1 e2 contractAddr w =
     (let w1 = kt_banner contractAddr w in
      case kt_connect contractAddr w1 of
        Inl e \<Rightarrow> Inl e
      | Inr keeperSimulationContract \<Rightarrow>
          (case kt_check e1 contractAddr keeperSimulationContract w1 of
             Inl e \<Rightarrow> Inl e
           | Inr w2 \<Rightarrow> kt_status e2 keeperSimulationContract w2))"

section \<open>Lemmas on the blocks\<close>

lemma kt_connect_ok:
  assumes "artifacts w ''KeeperSimulation'' = Some i" and "signers w = sg # sgs" and "parse_address s = Some a"
  shows "kt_connect s w = Inr \<lparr>target = Resolved a, iface = i, signer = Some sg\<rparr>"
  using assms by (simp add: kt_connect_def get_contract_factory_def first_signer_def contract_attach_resolved)

lemma kt_check_sim:
  assumes "iface k ''checkUpkeep'' = Some NonPayable" and "signer k = Some sg" and "target k = Resolved a"
    and "accts (env_run es (chain w)) a = Some (KeeperSimC sm)"
    and "accts (env_run es (chain w)) (sim_counter sm) = Some (CounterC c)"
  shows "kt_check es s k w =
     Inr (console_log [''Contract '', s, '' external data request successfully called. Transaction Hash: '',
                       show_hash (tx_count (env_run es (chain w)))]
            (w\<lparr>chain := snd (submit (env_run es (chain w)) a SimCheckUpkeep)\<rparr>))"
proof -
  have "contract_invoke k ''checkUpkeep'' SimCheckUpkeep es (chain w) =
      Inr (JTx (tx_count (env_run es (chain w))), snd (submit (env_run es (chain w)) a SimCheckUpkeep))"
    by (rule contract_invoke_send [of k _ NonPayable, OF assms(1) _ assms(2,3)])
       (use assms(4,5) in \<open>simp_all add: is_constant_def exec_call.simps\<close>)
  then show ?thesis by (simp add: kt_check_def)
qed

lemma kt_status_sim:
  assumes "iface k ''getUpkeepNeeded'' = Some View" and "signer k = Some sg" and "target k = Resolved a"
    and "accts (env_run es (chain w)) a = Some (KeeperSimC sm)"
  shows "kt_status es k w =
     Inr (console_log [''The status of this upkeep is currently: '', js_show (JBool (upkeepNeeded sm))]
            (w\<lparr>chain := env_run es (chain w)\<rparr>))"
proof -
  have ex: "exec_call (env_run es (chain w)) a GetUpkeepNeeded = Inr (env_run es (chain w), RBool (upkeepNeeded sm))"
    using assms(4) by (simp add: exec_call.simps)
  have "contract_invoke k ''getUpkeepNeeded'' GetUpkeepNeeded es (chain w) =
      Inr (JBool (upkeepNeeded sm), env_run es (chain w))"
    by (rule contract_invoke_call [of k _ View, OF assms(1) _ assms(2,3) ex]) (simp_all add: is_constant_def)
  then show ?thesis by (simp add: kt_status_def)
qed

text \<open>The check block on a contract whose \<open>checkUpkeep()\<close> reverts.\<close>

lemma kt_check_reverts:
  assumes "iface k ''checkUpkeep'' = Some NonPayable" and "signer k = Some sg" and "target k = Resolved a"
    and "accts (env_run es (chain w)) a \<noteq> None"
    and "\<not> (\<exists>sm c. accts (env_run es (chain w)) a = Some (KeeperSimC sm)
                  \<and> accts (env_run es (chain w)) (sim_counter sm) = Some (CounterC c))"
  shows "kt_check es s k w = Inl (UnpredictableGas a)"
  using assms
  by (auto simp: kt_check_def contract_invoke_def is_constant_def exec_call.simps Let_def
           split: option.splits contract.splits)

text \<open>The task moves the ledger only by ledger steps.\<close>

lemma kt_check_steps: "kt_check es s k w = Inr w' \<Longrightarrow> chain_step\<^sup>*\<^sup>* (chain w) (chain w')"
  by (auto simp: kt_check_def split: sum.splits prod.splits dest: contract_invoke_steps)

lemma kt_status_steps: "kt_status es k w = Inr w' \<Longrightarrow> chain_step\<^sup>*\<^sup>* (chain w) (chain w')"
  by (auto simp: kt_status_def split: sum.splits prod.splits dest: contract_invoke_steps)

lemma keeper_test_steps:
  "keeper_test_action e1 e2 s w = Inr w' \<Longrightarrow> chain_step\<^sup>*\<^sup>* (chain w) (chain w')"
  by (auto simp: keeper_test_action_def kt_banner_def Let_def split: sum.splits
           dest!: kt_check_steps kt_status_steps intro: rtranclp_trans)

lemma keeper_test_frame:
  "keeper_test_action e1 e2 s w = Inr w' \<Longrightarrow> deployments w' = deployments w"
  by (auto simp: keeper_test_action_def kt_check_def kt_status_def kt_banner_def console_log_def Let_def
           split: sum.splits prod.splits)

section \<open>Behaviour\<close>

text \<open>
  A run of the task from a KeeperSimulation bound to a Counter: it submits one
  \<open>checkUpkeep()\<close> transaction, prints its hash, and prints the
  \<open>upkeepNeeded\<close> that the KeeperSimulation holds after the moves \<open>e2\<close>.
\<close>

lemma keeper_test_run:
  assumes "artifacts w ''KeeperSimulation'' = Some sim_abi" and "signers w \<noteq> []"
    and "parse_address s = Some a"
    and "accts (env_run e1 (chain w)) a = Some (KeeperSimC sm)"
    and "accts (env_run e1 (chain w)) (sim_counter sm) = Some (CounterC c)"
  shows "\<exists>sm'. accts (env_run e2 (snd (submit (env_run e1 (chain w)) a SimCheckUpkeep))) a = Some (KeeperSimC sm')
     \<and> keeper_test_action e1 e2 s w =
         Inr (w\<lparr>chain := env_run e2 (snd (submit (env_run e1 (chain w)) a SimCheckUpkeep)),
                out := out w @
                  [join_sp [''Calling Keeper simulator contract '', s, '' on network '', network_name w],
                   join_sp [''Contract '', s, '' external data request successfully called. Transaction Hash: '',
                            show_hash (tx_count (env_run e1 (chain w)))],
                   join_sp [''The status of this upkeep is currently: '',
                            if upkeepNeeded sm' then ''true'' else ''false'']]\<rparr>)"
proof -
  define ch1 where "ch1 = env_run e1 (chain w)"
  define ch2 where "ch2 = env_run e2 (snd (submit ch1 a SimCheckUpkeep))"
  obtain sg sgs where sg: "signers w = sg # sgs" using assms(2) by (cases "signers w") auto
  define k where "k = \<lparr>target = Resolved a, iface = sim_abi, signer = Some sg\<rparr>"
  have sub: "accts (snd (submit ch1 a SimCheckUpkeep)) a = Some (KeeperSimC sm)"
    using assms(4) by (simp add: submit_def ch1_def)
  obtain sm' where sm': "accts ch2 a = Some (KeeperSimC sm')"
    using sub unfolding ch2_def by (rule env_run_sim)
  have con: "kt_connect s (kt_banner s w) = Inr k"
    using assms(1,3) sg unfolding k_def by (intro kt_connect_ok) (simp_all add: kt_banner_def)
  have chk: "kt_check e1 s k (kt_banner s w) =
     Inr (console_log [''Contract '', s, '' external data request successfully called. Transaction Hash: '',
                       show_hash (tx_count ch1)]
            ((kt_banner s w)\<lparr>chain := snd (submit ch1 a SimCheckUpkeep)\<rparr>))"
    using kt_check_sim [where w = "kt_banner s w" and k = k and a = a and es = e1] assms(4,5)
    by (simp add: k_def sim_abi_simps kt_banner_def ch1_def)
  have st: "kt_status e2 k (console_log [''Contract '', s, '' external data request successfully called. Transaction Hash: '',
                       show_hash (tx_count ch1)]
            ((kt_banner s w)\<lparr>chain := snd (submit ch1 a SimCheckUpkeep)\<rparr>)) =
     Inr (console_log [''The status of this upkeep is currently: '', js_show (JBool (upkeepNeeded sm'))]
           ((console_log [''Contract '', s, '' external data request successfully called. Transaction Hash: '',
                       show_hash (tx_count ch1)]
            ((kt_banner s w)\<lparr>chain := snd (submit ch1 a SimCheckUpkeep)\<rparr>))\<lparr>chain := ch2\<rparr>))"
    using kt_status_sim [where k = k and a = a and es = e2] sm'
    by (simp add: k_def sim_abi_simps ch2_def)
  have "keeper_test_action e1 e2 s w =
         Inr (w\<lparr>chain := ch2,
                out := out w @
                  [join_sp [''Calling Keeper simulator contract '', s, '' on network '', network_name w],
                   join_sp [''Contract '', s, '' external data request successfully called. Transaction Hash: '',
                            show_hash (tx_count ch1)],
                   join_sp [''The status of this upkeep is currently: '',
                            if upkeepNeeded sm' then ''true'' else ''false'']]\<rparr>)"
    using con chk st by (simp add: keeper_test_action_def kt_banner_def console_log_def)
  with sm' show ?thesis unfolding ch1_def ch2_def by blast
qed

text \<open>
  C2. The status read may be stale: when nothing mines the pool while the read
  is awaited, the task prints the \<open>upkeepNeeded\<close> the KeeperSimulation held
  before the transaction, and the transaction is still pending.
\<close>

theorem keeper_test_stale_read:
  assumes "artifacts w ''KeeperSimulation'' = Some sim_abi" and "signers w \<noteq> []"
    and "parse_address s = Some a"
    and "accts (env_run e1 (chain w)) a = Some (KeeperSimC sm)"
    and "accts (env_run e1 (chain w)) (sim_counter sm) = Some (CounterC c)"
    and "Mine \<notin> set e2"
  shows "\<exists>w'. keeper_test_action e1 e2 s w = Inr w'
     \<and> last (out w') = join_sp [''The status of this upkeep is currently: '',
                                if upkeepNeeded sm then ''true'' else ''false'']
     \<and> (tx_count (env_run e1 (chain w)), a, SimCheckUpkeep) \<in> set (mempool (chain w'))"
proof -
  define ch1 where "ch1 = env_run e1 (chain w)"
  from keeper_test_run [OF assms(1-5), of e2] obtain sm' where
    sm': "accts (env_run e2 (snd (submit ch1 a SimCheckUpkeep))) a = Some (KeeperSimC sm')"
    and run: "keeper_test_action e1 e2 s w =
         Inr (w\<lparr>chain := env_run e2 (snd (submit ch1 a SimCheckUpkeep)),
                out := out w @
                  [join_sp [''Calling Keeper simulator contract '', s, '' on network '', network_name w],
                   join_sp [''Contract '', s, '' external data request successfully called. Transaction Hash: '',
                            show_hash (tx_count ch1)],
                   join_sp [''The status of this upkeep is currently: '',
                            if upkeepNeeded sm' then ''true'' else ''false'']]\<rparr>)"
    unfolding ch1_def by blast
  have frame: "accts (env_run e2 (snd (submit ch1 a SimCheckUpkeep))) = accts (snd (submit ch1 a SimCheckUpkeep))
     \<and> set (mempool (snd (submit ch1 a SimCheckUpkeep))) \<subseteq> set (mempool (env_run e2 (snd (submit ch1 a SimCheckUpkeep))))"
    using assms(6) by (rule env_run_no_mine)
  with sm' assms(4) have "sm' = sm" by (simp add: submit_def ch1_def)
  moreover from frame have "(tx_count ch1, a, SimCheckUpkeep) \<in> set (mempool (env_run e2 (snd (submit ch1 a SimCheckUpkeep))))"
    by (auto simp: submit_def)
  ultimately show ?thesis using run unfolding ch1_def by simp
qed

theorem keeper_test_stale_read_witness:
  "\<exists>w'. keeper_test_action [] [] ''0x0000000000000000000000000000000000000002'' example_hre = Inr w'
     \<and> last (out w') = ''The status of this upkeep is currently:  false''
     \<and> (0, 2, SimCheckUpkeep) \<in> set (mempool (chain w'))"
proof -
  have a: "parse_address ''0x0000000000000000000000000000000000000002'' = Some 2"
    by (simp add: model_simps)
  have s: "accts (env_run [] (chain example_hre)) 2 = Some (KeeperSimC \<lparr>sim_counter = 1, upkeepNeeded = False\<rparr>)"
    by (simp add: model_simps env_run_def)
  have c: "accts (env_run [] (chain example_hre)) (sim_counter \<lparr>sim_counter = 1, upkeepNeeded = False\<rparr>)
             = Some (CounterC \<lparr>counter = 0, interval = 10, lastTimeStamp = 50\<rparr>)"
    by (simp add: model_simps env_run_def)
  show ?thesis
    using keeper_test_stale_read [OF _ _ a s c, of "[]"]
    by (simp add: model_simps env_run_def)
qed

text \<open>
  C3. When the pool is mined while the read is awaited, and the script's
  transaction was the only one pending, the task prints the Counter's answer
  at the block time and the transaction has a successful receipt.
\<close>

theorem keeper_test_mined_read:
  assumes "artifacts w ''KeeperSimulation'' = Some sim_abi" and "signers w \<noteq> []"
    and "parse_address s = Some a"
    and "accts (env_run e1 (chain w)) a = Some (KeeperSimC sm)"
    and "accts (env_run e1 (chain w)) (sim_counter sm) = Some (CounterC c)"
    and "mempool (env_run e1 (chain w)) = []"
  shows "\<exists>w'. keeper_test_action e1 [Mine] s w = Inr w'
     \<and> last (out w') = join_sp [''The status of this upkeep is currently: '',
           if counter_checkUpkeep (block_time (env_run e1 (chain w))) c then ''true'' else ''false'']
     \<and> (tx_count (env_run e1 (chain w)), True) \<in> set (receipts (chain w'))"
proof -
  define ch1 where "ch1 = env_run e1 (chain w)"
  from keeper_test_run [OF assms(1-5), of "[Mine]"] obtain sm' where
    sm': "accts (env_run [Mine] (snd (submit ch1 a SimCheckUpkeep))) a = Some (KeeperSimC sm')"
    and run: "keeper_test_action e1 [Mine] s w =
         Inr (w\<lparr>chain := env_run [Mine] (snd (submit ch1 a SimCheckUpkeep)),
                out := out w @
                  [join_sp [''Calling Keeper simulator contract '', s, '' on network '', network_name w],
                   join_sp [''Contract '', s, '' external data request successfully called. Transaction Hash: '',
                            show_hash (tx_count ch1)],
                   join_sp [''The status of this upkeep is currently: '',
                            if upkeepNeeded sm' then ''true'' else ''false'']]\<rparr>)"
    unfolding ch1_def by blast
  have m: "accts (mine (snd (submit ch1 a SimCheckUpkeep))) a =
           Some (KeeperSimC (sm\<lparr>upkeepNeeded := counter_checkUpkeep (block_time ch1) c\<rparr>))
     \<and> receipts (mine (snd (submit ch1 a SimCheckUpkeep))) = receipts ch1 @ [(tx_count ch1, True)]"
    using assms(6,4,5) unfolding ch1_def by (rule mine_lone_sim_check)
  with sm' have "upkeepNeeded sm' = counter_checkUpkeep (block_time ch1) c"
    by (auto simp: env_run_def)
  with run m show ?thesis unfolding ch1_def by (simp add: env_run_def)
qed

theorem keeper_test_mined_read_witness:
  "\<exists>w'. keeper_test_action [] [Mine] ''0x0000000000000000000000000000000000000002'' example_hre = Inr w'
     \<and> last (out w') = ''The status of this upkeep is currently:  true''
     \<and> (0, True) \<in> set (receipts (chain w'))"
proof -
  have a: "parse_address ''0x0000000000000000000000000000000000000002'' = Some 2"
    by (simp add: model_simps)
  have s: "accts (env_run [] (chain example_hre)) 2 = Some (KeeperSimC \<lparr>sim_counter = 1, upkeepNeeded = False\<rparr>)"
    by (simp add: model_simps env_run_def)
  have c: "accts (env_run [] (chain example_hre)) (sim_counter \<lparr>sim_counter = 1, upkeepNeeded = False\<rparr>)
             = Some (CounterC \<lparr>counter = 0, interval = 10, lastTimeStamp = 50\<rparr>)"
    by (simp add: model_simps env_run_def)
  have p: "mempool (env_run [] (chain example_hre)) = []"
    by (simp add: model_simps env_run_def)
  show ?thesis
    using keeper_test_mined_read [OF _ _ a s c p]
    by (simp add: model_simps env_run_def counter_checkUpkeep_def)
qed

text \<open>
  C11. On an address holding code that is not a KeeperSimulation bound to a
  Counter (a Counter, or a KeeperSimulation whose Counter address holds no
  Counter), the gas estimate of \<open>checkUpkeep()\<close> reverts and the task throws
  before sending anything.
\<close>

theorem keeper_test_not_bound:
  assumes "artifacts w ''KeeperSimulation'' = Some sim_abi" and "signers w \<noteq> []"
    and "parse_address s = Some a"
    and "accts (env_run e1 (chain w)) a \<noteq> None"
    and "\<not> (\<exists>sm c. accts (env_run e1 (chain w)) a = Some (KeeperSimC sm)
                  \<and> accts (env_run e1 (chain w)) (sim_counter sm) = Some (CounterC c))"
  shows "keeper_test_action e1 e2 s w = Inl (UnpredictableGas a)"
proof -
  obtain sg sgs where sg: "signers w = sg # sgs" using assms(2) by (cases "signers w") auto
  define k where "k = \<lparr>target = Resolved a, iface = sim_abi, signer = Some sg\<rparr>"
  have con: "kt_connect s (kt_banner s w) = Inr k"
    using assms(1,3) sg unfolding k_def by (intro kt_connect_ok) (simp_all add: kt_banner_def)
  have chk: "kt_check e1 s k (kt_banner s w) = Inl (UnpredictableGas a)"
    using kt_check_reverts [where w = "kt_banner s w" and k = k and a = a and es = e1] assms(4,5)
    by (simp add: k_def sim_abi_simps kt_banner_def)
  with con show ?thesis by (simp add: keeper_test_action_def)
qed

theorem keeper_test_not_bound_witness:
  "keeper_test_action [] [] ''0x0000000000000000000000000000000000000001'' example_hre = Inl (UnpredictableGas 1)"
proof -
  have a: "parse_address ''0x0000000000000000000000000000000000000001'' = Some 1"
    by (simp add: model_simps)
  have c: "accts (env_run [] (chain example_hre)) 1 = Some (CounterC \<lparr>counter = 0, interval = 10, lastTimeStamp = 50\<rparr>)"
    by (simp add: model_simps env_run_def)
  show ?thesis
    by (rule keeper_test_not_bound [OF _ _ a]) (simp_all add: c model_simps env_run_def)
qed

end
