(* ===== verification/Deploy.thy ===== *)
theory Deploy
  imports Hre
begin

text \<open>
  The deploy script (src/deploy/05_Deploy_KeeperSimulation.js): with the chain
  id of the selected network it silences ethers' logger, looks the network's
  name up in \<open>networkConfig\<close>, resolves the deployment record of the Counter,
  deploys a KeeperSimulation whose constructor receives the Counter's address
  (or reuses the recorded one when it is bound to that Counter), and logs the
  command line that exercises it with the keeper-test task.  It is selected
  by the tags \<open>all\<close> and \<open>keepers\<close>.  The lemmas give the two outcomes of a
  run (\<open>deploy_outcome\<close>), the binding of a new deployment (C4), its error
  paths (C13) and the reuse on a second run (C15).
\<close>

text \<open>Line 29: the script's tags.\<close>

definition deploy_tags :: "string list" where
  "deploy_tags = [''all'', ''keepers'']"

text \<open>Line 16: \<open>networkConfig[chainId]['name']\<close>; a missing entry throws, a
  missing name is \<open>undefined\<close>, which a template literal prints as such.\<close>

definition deploy_network_name :: "hre \<Rightarrow> error + string" where
  "deploy_network_name w =
     (case networkConfig w (chain_id w) of
        None \<Rightarrow> Inl (UnknownChainId (chain_id w))
      | Some entry \<Rightarrow> Inr (case entry of None \<Rightarrow> ''undefined'' | Some n \<Rightarrow> n))"

text \<open>Line 26: the command line printed for the operator.\<close>

definition deploy_hint :: "address \<Rightarrow> string \<Rightarrow> string" where
  "deploy_hint a networkName =
     ''npx hardhat keeper-test --contract '' @ show_address a @ '' --network '' @ networkName"

text \<open>Lines 25-27: the three log lines.\<close>

definition deploy_report :: "address \<Rightarrow> string \<Rightarrow> hre \<Rightarrow> hre" where
  "deploy_report a networkName w =
     console_log [''----------------------------------------------------'']
       (console_log [deploy_hint a networkName]
          (console_log [''Run Keeper simulation contract with following command:''] w))"

text \<open>Line 14: \<open>ethers.utils.Logger.setLogLevel(ERROR)\<close> silences ethers' warnings
  for the rest of the run.\<close>

definition deploy_set_log_level :: "hre \<Rightarrow> hre" where
  "deploy_set_log_level w = w\<lparr>log_level := LogError\<rparr>"

text \<open>Lines 3-28: the script.\<close>

definition deploy_keeper_simulation :: "hre \<Rightarrow> error + hre" where
  "deploy_keeper_simulation w =
     (let deployer = named_deployer w;
          w1 = deploy_set_log_level w
      in case deploy_network_name w1 of
           Inl e \<Rightarrow> Inl e
         | Inr networkName \<Rightarrow>
             (case deployments_get ''Counter'' w1 of
                Inl e \<Rightarrow> Inl e
              | Inr counterAddress \<Rightarrow>
                  (case hh_deploy ''KeeperSimulation'' deployer True (KeeperSimC (sim_constructor counterAddress)) w1 of
                     Inl e \<Rightarrow> Inl e
                   | Inr (keeperSimulation, w2) \<Rightarrow> Inr (deploy_report keeperSimulation networkName w2))))"

text \<open>The script moves the ledger only by one contract creation.\<close>

lemma deploy_outcome:
  assumes "deploy_keeper_simulation w = Inr w'"
  obtains ca where "deployments w ''Counter'' = Some ca" and "chain w' = chain w" and "deployments w' = deployments w"
  | ca a where "deployments w ''Counter'' = Some ca"
      and "create_contract (KeeperSimC (sim_constructor ca)) (chain w) = Inr (a, chain w')"
      and "deployments w' = (deployments w)(''KeeperSimulation'' \<mapsto> a)"
  using assms
  by (auto simp: deploy_keeper_simulation_def deploy_set_log_level_def hh_deploy_def deploy_report_def deployments_get_def Let_def
           split: sum.splits prod.splits option.splits)

lemma deploy_steps:
  assumes "deploy_keeper_simulation w = Inr w'"
  shows "chain_step\<^sup>*\<^sup>* (chain w) (chain w')"
  using assms
proof (cases rule: deploy_outcome)
  case (1 ca)
  then show ?thesis by simp
next
  case (2 ca a)
  then have "chain_step (chain w) (chain w')" by (blast intro: chain_step.create_sim)
  then show ?thesis by (rule r_into_rtranclp)
qed

text \<open>The two outcomes of a successful run: a new KeeperSimulation, or the
  recorded one reused.\<close>

lemma deploy_creates:
  assumes "networkConfig w (chain_id w) = Some (Some n)"
    and "deployments w ''Counter'' = Some ca"
    and "artifacts w ''KeeperSimulation'' = Some i" and "named_deployer w = Some d"
    and "hh_reusable ''KeeperSimulation'' (KeeperSimC (sim_constructor ca)) w = None"
    and "create_contract (KeeperSimC (sim_constructor ca)) (chain w) = Inr (a, ch')"
  shows "deploy_keeper_simulation w =
      Inr (deploy_report a n (w\<lparr>log_level := LogError, chain := ch',
                                deployments := (deployments w)(''KeeperSimulation'' \<mapsto> a),
                                out := out w @ [hh_deploy_log ''KeeperSimulation'' a]\<rparr>))"
proof -
  have "hh_reusable ''KeeperSimulation'' (KeeperSimC (sim_constructor ca)) (w\<lparr>log_level := LogError\<rparr>) = None"
    using assms(5) by simp
  with assms show ?thesis
    by (simp add: deploy_keeper_simulation_def deploy_set_log_level_def deploy_network_name_def deployments_get_def hh_deploy_def)
qed

lemma deploy_reuses:
  assumes "networkConfig w (chain_id w) = Some (Some n)"
    and "deployments w ''Counter'' = Some ca"
    and "artifacts w ''KeeperSimulation'' = Some i" and "named_deployer w = Some d"
    and "deployments w ''KeeperSimulation'' = Some a" and "shape (chain w) a = Some (Inr ca)"
  shows "deploy_keeper_simulation w =
      Inr (deploy_report a n (w\<lparr>log_level := LogError,
                                out := out w @ [hh_reuse_log ''KeeperSimulation'' a]\<rparr>))"
  using assms
  by (simp add: deploy_keeper_simulation_def deploy_set_log_level_def deploy_network_name_def deployments_get_def hh_deploy_def
                hh_reusable_def sim_constructor_def)

section \<open>Behaviour\<close>

text \<open>
  C4. On a ledger satisfying the invariant, with the network configured, the
  Counter recorded at an address holding a Counter, the artifact compiled, a
  deployer and an address left, the script deploys a KeeperSimulation at a
  fresh address, bound to the Counter's address and with no upkeep recorded,
  records it as \<open>KeeperSimulation\<close>, sets the log level to errors, and logs
  the three lines with the keeper-test command for the new address.
\<close>

theorem deploy_binds_counter:
  assumes "chain_inv (chain w)"
    and "networkConfig w (chain_id w) = Some (Some n)"
    and "deployments w ''Counter'' = Some ca" and "accts (chain w) ca = Some (CounterC c)"
    and "artifacts w ''KeeperSimulation'' = Some i" and "named_deployer w = Some d"
    and "next_addr (chain w) < 2 ^ 160"
    and "\<forall>b. deployments w ''KeeperSimulation'' = Some b \<longrightarrow> shape (chain w) b \<noteq> Some (Inr ca)"
  shows "\<exists>a w'. deploy_keeper_simulation w = Inr w'
     \<and> deployments w' ''KeeperSimulation'' = Some a
     \<and> accts (chain w') a = Some (KeeperSimC \<lparr>sim_counter = ca, upkeepNeeded = False\<rparr>)
     \<and> a \<noteq> ca \<and> accts (chain w) a = None
     \<and> log_level w' = LogError
     \<and> out w' = out w @ [hh_deploy_log ''KeeperSimulation'' a,
                         ''Run Keeper simulation contract with following command:'',
                         deploy_hint a n, ''----------------------------------------------------'']"
proof -
  define k where "k = KeeperSimC (sim_constructor ca)"
  obtain a ch' where cr: "create_contract k (chain w) = Inr (a, ch')"
    using assms(7) by (simp add: create_contract_def)
  have fresh: "accts (chain w) a = None \<and> unat a = next_addr (chain w) \<and> a \<noteq> 0 \<and> accts ch' a = Some k"
    using assms(1) cr by (rule create_contract_fresh)
  with assms(4) have "a \<noteq> ca" by auto
  have "hh_reusable ''KeeperSimulation'' k w = None"
    using assms(8) by (auto simp: hh_reusable_def k_def sim_constructor_def split: option.splits)
  from deploy_creates [OF assms(2,3,5,6) this [unfolded k_def] cr [unfolded k_def]] fresh \<open>a \<noteq> ca\<close>
  show ?thesis by (simp add: deploy_report_def console_log_def k_def sim_constructor_def)
qed

lemma example_chain_inv: "chain_inv example_chain"
  by (simp add: model_simps chain_inv_def counters_ok_def hashes_def)

theorem deploy_binds_counter_witness:
  "\<exists>a w'. deploy_keeper_simulation example_hre = Inr w'
     \<and> deployments w' ''KeeperSimulation'' = Some a
     \<and> accts (chain w') a = Some (KeeperSimC \<lparr>sim_counter = 1, upkeepNeeded = False\<rparr>)
     \<and> a \<noteq> 1 \<and> accts (chain example_hre) a = None
     \<and> log_level w' = LogError
     \<and> out w' = out example_hre @ [hh_deploy_log ''KeeperSimulation'' a,
                         ''Run Keeper simulation contract with following command:'',
                         deploy_hint a ''hardhat'', ''----------------------------------------------------'']"
proof -
  have i: "chain_inv (chain example_hre)" using example_chain_inv by (simp add: example_hre_def)
  have c: "accts (chain example_hre) 1 = Some (CounterC \<lparr>counter = 0, interval = 10, lastTimeStamp = 50\<rparr>)"
    by (simp add: model_simps)
  show ?thesis
    by (rule deploy_binds_counter [OF i _ _ c]) (simp_all add: model_simps)
qed

text \<open>
  C13. The script fails before deploying anything when the chain id has no
  \<open>networkConfig\<close> entry (a TypeError, checked first) or when no Counter
  deployment is recorded.
\<close>

theorem deploy_aborts_before_deploying:
  "(networkConfig w (chain_id w) = None \<longrightarrow>
      deploy_keeper_simulation w = Inl (UnknownChainId (chain_id w)))
   \<and> (networkConfig w (chain_id w) \<noteq> None \<and> deployments w ''Counter'' = None \<longrightarrow>
      deploy_keeper_simulation w = Inl (NoDeployment ''Counter''))"
  by (auto simp: deploy_keeper_simulation_def deploy_set_log_level_def deploy_network_name_def deployments_get_def)

theorem deploy_aborts_before_deploying_witness:
  "deploy_keeper_simulation (example_hre\<lparr>networkConfig := Map.empty\<rparr>) = Inl (UnknownChainId 31337)
   \<and> deploy_keeper_simulation (example_hre\<lparr>deployments := Map.empty\<rparr>) = Inl (NoDeployment ''Counter'')"
  using deploy_aborts_before_deploying [of "example_hre\<lparr>networkConfig := Map.empty\<rparr>"]
        deploy_aborts_before_deploying [of "example_hre\<lparr>deployments := Map.empty\<rparr>"]
  by (simp add: model_simps)

text \<open>
  C15. Running the deploy script a second time reuses the KeeperSimulation
  the first run created.  It creates nothing, leaves the ledger and the
  registry as they were, and logs \<open>reusing\<close> followed by the same
  keeper-test command for the same address.
\<close>

theorem deploy_twice_reuses:
  assumes "chain_inv (chain w)"
    and "networkConfig w (chain_id w) = Some (Some n)"
    and "deployments w ''Counter'' = Some ca" and "accts (chain w) ca = Some (CounterC c)"
    and "artifacts w ''KeeperSimulation'' = Some i" and "named_deployer w = Some d"
    and "next_addr (chain w) < 2 ^ 160"
    and "\<forall>b. deployments w ''KeeperSimulation'' = Some b \<longrightarrow> shape (chain w) b \<noteq> Some (Inr ca)"
  shows "\<exists>a w1 w2. deploy_keeper_simulation w = Inr w1 \<and> deploy_keeper_simulation w1 = Inr w2
     \<and> deployments w1 ''KeeperSimulation'' = Some a
     \<and> chain w2 = chain w1 \<and> deployments w2 = deployments w1
     \<and> out w2 = out w1 @ [hh_reuse_log ''KeeperSimulation'' a,
                          ''Run Keeper simulation contract with following command:'',
                          deploy_hint a n, ''----------------------------------------------------'']"
proof -
  define k where "k = KeeperSimC (sim_constructor ca)"
  obtain a ch' where cr: "create_contract k (chain w) = Inr (a, ch')"
    using assms(7) by (simp add: create_contract_def)
  have fresh: "accts ch' a = Some k"
    using create_contract_fresh [OF assms(1) cr] by simp
  have nr: "hh_reusable ''KeeperSimulation'' k w = None"
    using assms(8) by (auto simp: hh_reusable_def k_def sim_constructor_def split: option.splits)
  define w1 where "w1 = deploy_report a n (w\<lparr>log_level := LogError, chain := ch',
                                deployments := (deployments w)(''KeeperSimulation'' \<mapsto> a),
                                out := out w @ [hh_deploy_log ''KeeperSimulation'' a]\<rparr>)"
  have run1: "deploy_keeper_simulation w = Inr w1"
    unfolding w1_def using deploy_creates [OF assms(2,3,5,6) nr [unfolded k_def] cr [unfolded k_def]] .
  have r1: "deployments w1 ''KeeperSimulation'' = Some a" and s1: "shape (chain w1) a = Some (Inr ca)"
    using fresh by (simp_all add: w1_def deploy_report_def console_log_def shape_def k_def sim_constructor_def)
  have "networkConfig w1 (chain_id w1) = Some (Some n)" "deployments w1 ''Counter'' = Some ca"
       "artifacts w1 ''KeeperSimulation'' = Some i" "named_deployer w1 = Some d"
    using assms(2,3,5,6) by (simp_all add: w1_def deploy_report_def console_log_def)
  from deploy_reuses [OF this r1 s1] run1 r1 show ?thesis
    by (simp add: deploy_report_def console_log_def w1_def)
qed

theorem deploy_twice_reuses_witness:
  "\<exists>a w1 w2. deploy_keeper_simulation example_hre = Inr w1 \<and> deploy_keeper_simulation w1 = Inr w2
     \<and> deployments w1 ''KeeperSimulation'' = Some a
     \<and> chain w2 = chain w1 \<and> deployments w2 = deployments w1
     \<and> out w2 = out w1 @ [hh_reuse_log ''KeeperSimulation'' a,
                          ''Run Keeper simulation contract with following command:'',
                          deploy_hint a ''hardhat'', ''----------------------------------------------------'']"
proof -
  have i: "chain_inv (chain example_hre)" using example_chain_inv by (simp add: example_hre_def)
  have c: "accts (chain example_hre) 1 = Some (CounterC \<lparr>counter = 0, interval = 10, lastTimeStamp = 50\<rparr>)"
    by (simp add: model_simps)
  show ?thesis
    by (rule deploy_twice_reuses [OF i _ _ c]) (simp_all add: model_simps)
qed

end
