(* ===== verification/Spec2Isabelle.thy ===== *)
theory Spec2Isabelle
  imports KeeperSimulationTask KeeperTestTask Deploy
begin

text \<open>
  \<^bold>\<open>A verification model of the hardhat starter kit's keeper scripts.\<close>

  \<^bold>\<open>The program.\<close>  Three scripts drive two contracts on an Ethereum ledger
  through hardhat, hardhat-deploy and ethers v5:
  \<^item> src/deploy/05_Deploy_KeeperSimulation.js deploys a KeeperSimulation bound
    to the recorded Counter and logs the keeper-test command for it;
  \<^item> src/tasks/keeper-simulation/keeper-simulation.js (task
    \<open>keeper-simulation\<close>) reads the Counter's \<open>checkUpkeep\<close> with the current
    time and, when it answers true, sends \<open>performUpkeep\<close>;
  \<^item> src/tasks/keeper-tester/check-upkeep.js (task \<open>keeper-test\<close>) sends the
    KeeperSimulation's \<open>checkUpkeep()\<close> and then reads its \<open>getUpkeepNeeded()\<close>.
  The scripts share no state of their own; they interact only through the
  ledger, the deployment registry and the console.

  \<^bold>\<open>Theories.\<close>
  \<^item> \<open>Prelude\<close>: machine types (160-bit addresses and 256-bit
    \<open>uint\<close>s as \<open>word\<close>s), the \<open>error\<close> type of every throw and the result type
    \<open>error + 'a\<close>.  Positional digits with their round trips.  The
    console's joining of arguments and the shell's word splitting.
  \<^item> \<open>Ledger\<close> (modelled from the specification; the contracts are not
    under src/): the Counter (\<open>counter_checkUpkeep\<close>, \<open>counter_performUpkeep\<close>,
    wrap-around subtraction on \<open>uint\<close>) and the KeeperSimulation; the chain
    record (accounts, block time, pool, receipts); \<open>exec_call\<close>, \<open>submit\<close>,
    \<open>mine\<close>, \<open>advance_time\<close>, \<open>create_contract\<close>; the moves of the world
    (\<open>env_act\<close>: mine, advance time, a foreign transaction); the step relation
    \<open>chain_step\<close>, reachability, and the invariant \<open>chain_inv\<close> with its proof
    by rule induction; the immutable \<open>shape\<close> of each account.
  \<^item> \<open>Ethers\<close> (library, from the specification): JavaScript values and
    truthiness, hex printing and parsing of addresses, ABI \<open>uint\<close> encoding,
    \<open>arrayify\<close>, contract handles and \<open>contract_invoke\<close>.  A view or pure
    function is a read call whose return data is decoded.  Any other function
    is a transaction: gas is estimated, then it goes into the pool and the
    response is returned before mining.
  \<^item> \<open>Hre\<close>: the hardhat runtime record (network, chain id, named
    accounts, signers, artifacts, deployment registry, console, clock),
    hardhat-deploy's \<open>get\<close> and \<open>deploy\<close> (with the reuse of an
    unchanged deployment and its log line), tag selection, command-line parsing
    and task parameters, and an example runtime that is reachable from genesis.
  \<^item> \<open>KeeperSimulationTask\<close>, \<open>KeeperTestTask\<close>, \<open>Deploy\<close>: one
    definition per block of each script, named after its lines.  Each script
    is the composition of its blocks, in the order of the source, as one
    action \<open>hre \<Rightarrow> error + hre\<close>.  Every throw of the script or of a library it
    calls is an \<open>Inl\<close> branch.
  \<^item> this theory: \<open>hardhat_run\<close>, one command line dispatched to a
    script; \<open>session\<close>, any sequence of commands and moves of the world; and
    \<open>registry_ok\<close>, the conformance of the deployment registry to the ledger.

  \<^bold>\<open>Interleaving.\<close>  A script is suspended only at its ledger awaits.  Each
  action takes one list of world moves per await that reads or writes the
  chain: \<open>e1\<close> and \<open>e2\<close>.  The other awaits (factory, signers, network id)
  touch no state the script has read, so their moves are folded into the next
  ledger await.  The lists are arbitrary, so every interleaving of the script
  with other users, miners and time is covered.  There is no loop and no fuel.  No script contains a loop or recursion,
  and the library functions the model needs (digit lists, word splitting,
  command-line pairs, \<open>arrayify\<close>) are structurally recursive \<open>fun\<close>s.
  So every definition is total by construction and no termination theorem
  is stated.

  \<^bold>\<open>What is proved.\<close>
  \<^item> Exact behaviour of each task on every branch: C1 for keeper-simulation;
    C2 and C3 for keeper-test, whose status read is stale exactly when nothing
    mines the pool during the read.
  \<^item> C4: deployment binds the new KeeperSimulation to the recorded Counter
    at a fresh address.
  \<^item> C5: a refinement of the abstract keeper round \<open>keeper_spec\<close>.
  \<^item> C6: two rounds in one block perform at most once.
  \<^item> C7: on reachable ledgers the decision is the unwrapped comparison.
  \<^item> C8: the command the deploy script prints runs keeper-test on the
    deployed contract.
  \<^item> C9: with a non-view \<open>checkUpkeep\<close> in the compiled ABI, keeper-simulation
    never performs.
  \<^item> C10 and C11: the tasks' error paths on a wrong address.
  \<^item> C12: tag selection of the deploy script.
  \<^item> C13: the deploy script's error paths.
  \<^item> C14: the timestamp encoding's round trip and its range error.
  \<^item> C15: a second deploy run reuses the first run's contract and changes
    neither ledger nor registry.
  \<^item> C16: the registry stays well-typed along every session.
  \<^item> C17 (liveness): advancing time always makes the upkeep due, and the
    next run performs it.
  Supporting lemmas prove that every operation preserves \<open>chain_inv\<close>, that
  ledger steps from a reachable ledger keep it reachable, with every
  contract's kind and immutable fields unchanged (\<open>chain_steps_keep\<close>; a fact
  of the ledger model alone, whatever the scripts do), that
  \<open>checkUpkeep\<close>'s wrapping subtraction never wraps on a reachable chain,
  that hex and ABI encodings round-trip, and that printed command lines split
  back into their words.

  \<^bold>\<open>Errors.\<close>  A script that throws returns \<open>Inl\<close> and its world is dropped,
  unlike semantics that keep the state beside an abrupt completion.  So a
  theorem about a failing run can state which error is thrown, but not what
  the run printed or sent before it threw.  A
  transaction it had already sent stays in the real pool.  Such a transaction
  is also a \<open>Foreign\<close> move of the world, so \<open>session\<close> still covers the
  ledgers a failed command leaves behind.

  \<^bold>\<open>Not modelled.\<close>
  \<^item> Keccak hashes: transaction hashes are submission sequence numbers.
  \<^item> Checksum casing of addresses; gas amounts, nonces and fees.
  \<^item> The transaction hash and gas in hardhat-deploy's \<open>log: true\<close> line for
    a new contract; the line keeps the contract's name and address.
    hardhat-deploy decides reuse from the bytecode and arguments stored in
    the record.  The model compares the kind and constructor argument of the
    contract at the recorded address; C16 shows the two agree.
  \<^item> The effect of the ethers logger level on anything but its field.
  \<^item> Networks other than the selected one; the other deploy scripts.
  \<^item> \<open>getChainId\<close>, read as the runtime's chain id.
  \<^item> \<open>await getNetworkIdFromName(network.name)\<close> (line 8 of both tasks): its
    result is unused and it changes nothing.
  \<^item> A fresh chain per command: \<open>session\<close> keeps one chain across commands,
    as a persistent node does (\<open>--network localhost\<close>).  On the in-process
    \<open>hardhat\<close> network each command starts from a new chain.
  \<^item> Rejection of undeclared task parameters by hardhat's argument parser.
  \<^item> \<open>Math.floor\<close> on a float is \<open>div\<close> on integers, exact for every clock a
    JavaScript \<open>Date\<close> can hold.
\<close>

section \<open>The command line: one entry point for the three scripts\<close>

text \<open>
  The operator drives the program through hardhat's command line:
  \<open>npx hardhat deploy --tags keepers\<close> runs the deploy script (when the tags
  select it), \<open>npx hardhat keeper-simulation --contract A\<close> and
  \<open>npx hardhat keeper-test --contract A\<close> run the two tasks with the
  parameter their declarations require.  \<open>e1\<close> and \<open>e2\<close> are the moves of
  the world during the run's two ledger awaits.
\<close>

definition hardhat_run :: "env_act list \<Rightarrow> env_act list \<Rightarrow> string \<Rightarrow> hre \<Rightarrow> error + hre" where
  "hardhat_run e1 e2 cmd w =
     (case parse_cli cmd of
        Inl e \<Rightarrow> Inl e
      | Inr (task, ps) \<Rightarrow>
          (case select_network ps w of
             Inl e \<Rightarrow> Inl e
           | Inr w0 \<Rightarrow>
               (if task = task_name keeper_simulation_decl then
                  (case task_args keeper_simulation_decl ps of
                     Inl e \<Rightarrow> Inl e
                   | Inr args \<Rightarrow>
                       (case args ''contract'' of
                          None \<Rightarrow> Inl (MissingParam ''contract'')
                        | Some c \<Rightarrow> keeper_simulation_action e1 e2 c w0))
                else if task = task_name keeper_test_decl then
                  (case task_args keeper_test_decl ps of
                     Inl e \<Rightarrow> Inl e
                   | Inr args \<Rightarrow>
                       (case args ''contract'' of
                          None \<Rightarrow> Inl (MissingParam ''contract'')
                        | Some c \<Rightarrow> keeper_test_action e1 e2 c w0))
                else if task = ''deploy'' then
                  (if script_selected deploy_tags (requested_tags ps) then deploy_keeper_simulation w0
                   else Inr w0)
                else Inl (UnknownTask task))))"

text \<open>
  A session: any sequence of commands, each run against arbitrary moves of the
  world, with the world also moving between commands.
\<close>

inductive session :: "hre \<Rightarrow> hre \<Rightarrow> bool" where
  start: "session w w"
| command: "session w w1 \<Longrightarrow> hardhat_run e1 e2 cmd w1 = Inr w2 \<Longrightarrow> session w w2"
| world: "session w w1 \<Longrightarrow> session w (w1\<lparr>chain := env_run es (chain w1)\<rparr>)"

text \<open>
  The deployment registry conforms to the ledger: the recorded Counter is a
  Counter, and a recorded KeeperSimulation is bound to the recorded
  Counter.  A KeeperSimulation is recorded only with a Counter record.
\<close>

definition registry_ok :: "hre \<Rightarrow> bool" where
  "registry_ok w \<longleftrightarrow>
     (case deployments w ''Counter'' of
        None \<Rightarrow> deployments w ''KeeperSimulation'' = None
      | Some ca \<Rightarrow>
          (case shape (chain w) ca of Some (Inl _) \<Rightarrow> True | _ \<Rightarrow> False)
          \<and> (case deployments w ''KeeperSimulation'' of
               None \<Rightarrow> True
             | Some b \<Rightarrow> shape (chain w) b = Some (Inr ca)))"

section \<open>Lemmas\<close>

lemma hex_digit_not_space: "d < 16 \<Longrightarrow> hex_digit d \<noteq> CHR '' ''"
  using hex_value_digit [of d] by (auto simp: hex_value_def)

lemma show_address_word: "show_address a \<noteq> [] \<and> CHR '' '' \<notin> set (show_address a)"
proof -
  have "\<forall>d \<in> set (digits_be 16 40 (unat a)). d < 16" by (auto intro: digits_be_less)
  then show ?thesis using hex_digit_not_space by (fastforce simp: show_address_def show_hex_def)
qed

lemma deploy_hint_words:
  "deploy_hint a n = join_sp [''npx'', ''hardhat'', ''keeper-test'', ''--contract'', show_address a, ''--network'', n]"
  by (simp add: deploy_hint_def)

text \<open>A command either runs a task, which keeps the registry, or the deploy
  script.\<close>

lemma hardhat_run_outcome:
  assumes "hardhat_run e1 e2 cmd w = Inr w'"
  shows "(deployments w' = deployments w \<and> chain_step\<^sup>*\<^sup>* (chain w) (chain w'))
         \<or> deploy_keeper_simulation w = Inr w'"
  using assms
  by (auto simp: hardhat_run_def select_network_def
           split: sum.splits prod.splits option.splits if_splits
           dest: keeper_simulation_steps keeper_test_steps keeper_simulation_frame keeper_test_frame)

lemma hardhat_run_steps:
  assumes "hardhat_run e1 e2 cmd w = Inr w'"
  shows "chain_step\<^sup>*\<^sup>* (chain w) (chain w')"
  using hardhat_run_outcome [OF assms] by (auto dest: deploy_steps)

lemma registry_ok_keep:
  assumes "registry_ok w" and "deployments w' = deployments w"
    and "\<forall>a x. shape (chain w) a = Some x \<longrightarrow> shape (chain w') a = Some x"
  shows "registry_ok w'"
  using assms by (auto simp: registry_ok_def split: option.splits sum.splits)

lemma deploy_registry_ok:
  assumes "deploy_keeper_simulation w = Inr w'" and "reachable_chain (chain w)" and "registry_ok w"
  shows "registry_ok w'"
  using assms(1)
proof (cases rule: deploy_outcome)
  case (1 ca)
  then show ?thesis using registry_ok_keep [OF assms(3)] by simp
next
  case (2 ca a)
  have keep: "\<forall>b x. shape (chain w) b = Some x \<longrightarrow> shape (chain w') b = Some x"
    using chain_steps_keep [OF deploy_steps [OF assms(1)] assms(2)] by blast
  have "accts (chain w') a = Some (KeeperSimC (sim_constructor ca))"
    using create_contract_fresh [OF reachable_chain_inv [OF assms(2)] 2(2)] by simp
  then have "shape (chain w') a = Some (Inr ca)" by (simp add: shape_def sim_constructor_def)
  with 2(1,3) keep assms(3) show ?thesis by (auto simp: registry_ok_def split: option.splits sum.splits)
qed

section \<open>Properties across the scripts\<close>

text \<open>
  C8. The command the deploy script prints runs the keeper-test task on the
  contract it deployed: hardhat parses the printed line into the keeper-test
  task with its required \<open>contract\<close> parameter, that parameter is the printed
  address, and the address string parses back to the deployed address.
\<close>

theorem hint_runs_keeper_test:
  assumes "n = network_name w" and "n \<noteq> []" and "CHR '' '' \<notin> set n"
  shows "hardhat_run e1 e2 (deploy_hint a n) w = keeper_test_action e1 e2 (show_address a) w
       \<and> parse_address (show_address a) = Some a"
proof -
  have "shell_words (deploy_hint a n) =
          [''npx'', ''hardhat'', ''keeper-test'', ''--contract'', show_address a, ''--network'', n]"
    unfolding deploy_hint_words using show_address_word [of a] assms(2,3)
    by (intro shell_words_join_sp) auto
  then have "parse_cli (deploy_hint a n) =
               Inr (''keeper-test'', [(''contract'', show_address a), (''network'', n)])"
    by (simp add: parse_cli_def)
  then show ?thesis
    using assms(1)
    by (simp add: hardhat_run_def select_network_def task_args_def keeper_test_decl_def
                  keeper_simulation_decl_def parse_address_show_address)
qed

theorem hint_runs_keeper_test_witness:
  "hardhat_run [] [] (deploy_hint 3 ''hardhat'') example_hre = keeper_test_action [] [] (show_address 3) example_hre
   \<and> parse_address (show_address 3) = Some 3"
  by (rule hint_runs_keeper_test) (simp_all add: example_hre_def)

text \<open>
  C12. hardhat-deploy runs the deploy script for a bare \<open>npx hardhat deploy\<close>.
  With \<open>--tags\<close> and a comma-separated list of tags, it runs the script
  exactly when the list names \<open>all\<close> or \<open>keepers\<close> (line 29); otherwise the
  command does nothing.
\<close>

theorem deploy_selected_by_tags:
  assumes "ts \<noteq> []" and "\<forall>t \<in> set ts. t \<noteq> [] \<and> CHR '' '' \<notin> set t \<and> CHR '','' \<notin> set t"
  shows "hardhat_run e1 e2 ''npx hardhat deploy'' w = deploy_keeper_simulation w
     \<and> hardhat_run e1 e2 (''npx hardhat deploy --tags '' @ join_on (CHR '','') ts) w =
          (if ''all'' \<in> set ts \<or> ''keepers'' \<in> set ts then deploy_keeper_simulation w else Inr w)"
proof -
  define x where "x = join_on (CHR '','') ts"
  have "hd ts \<noteq> []" using assms by (cases ts) auto
  then have "x \<noteq> []" using assms(1) by (simp add: x_def join_on_nonempty)
  moreover have "CHR '' '' \<notin> set x" using set_join_on [of "CHR '',''" ts] assms(2) by (auto simp: x_def)
  ultimately have "shell_words (join_sp [''npx'', ''hardhat'', ''deploy'', ''--tags'', x]) =
                     [''npx'', ''hardhat'', ''deploy'', ''--tags'', x]"
    by (intro shell_words_join_sp) auto
  then have p: "parse_cli (''npx hardhat deploy --tags '' @ x) = Inr (''deploy'', [(''tags'', x)])"
    by (simp add: parse_cli_def)
  have t: "split_acc (CHR '','') [] x = ts" using assms(2) by (simp add: x_def split_acc_join_on)
  have "hardhat_run e1 e2 (''npx hardhat deploy --tags '' @ x) w =
          (if ''all'' \<in> set ts \<or> ''keepers'' \<in> set ts then deploy_keeper_simulation w else Inr w)"
    using p t assms(1)
    by (auto simp: hardhat_run_def select_network_def requested_tags_def script_selected_def deploy_tags_def
                   keeper_test_decl_def keeper_simulation_decl_def)
  moreover have "hardhat_run e1 e2 ''npx hardhat deploy'' w = deploy_keeper_simulation w"
    by (simp add: hardhat_run_def parse_cli_def shell_words_def select_network_def requested_tags_def
                  script_selected_def keeper_test_decl_def keeper_simulation_decl_def)
  ultimately show ?thesis by (simp add: x_def)
qed

theorem deploy_selected_by_tags_witness:
  "hardhat_run [] [] ''npx hardhat deploy'' example_hre = deploy_keeper_simulation example_hre
   \<and> hardhat_run [] [] (''npx hardhat deploy --tags '' @ join_on (CHR '','') [''mocks'', ''keepers'']) example_hre
       = deploy_keeper_simulation example_hre"
  using deploy_selected_by_tags [of "[''mocks'', ''keepers'']" "[]" "[]" example_hre] by simp

text \<open>
  C16. The registry stays well-typed along every session from a reachable
  ledger with a conforming registry.  The recorded Counter is always a
  Counter, and the recorded KeeperSimulation is always bound to it, as the
  keeper-test hint assumes.
\<close>

theorem session_registry_ok:
  assumes "session w w'" and "reachable_chain (chain w)" and "registry_ok w"
  shows "registry_ok w'"
proof -
  from assms have "reachable_chain (chain w') \<and> registry_ok w'"
  proof (induction rule: session.induct)
    case (start w)
    then show ?case by simp
  next
    case (command w w1 e1 e2 cmd w2)
    then have r1: "reachable_chain (chain w1)" and g1: "registry_ok w1" by simp_all
    have k: "reachable_chain (chain w2) \<and> (\<forall>a x. shape (chain w1) a = Some x \<longrightarrow> shape (chain w2) a = Some x)"
      using chain_steps_keep [OF hardhat_run_steps [OF command.hyps(2)] r1] .
    from hardhat_run_outcome [OF command.hyps(2)] have "registry_ok w2"
      using k g1 registry_ok_keep [of w1 w2] deploy_registry_ok [OF _ r1 g1] by blast
    with k show ?case by simp
  next
    case (world w w1 es)
    then have r1: "reachable_chain (chain w1)" and g1: "registry_ok w1" by simp_all
    have k: "reachable_chain (env_run es (chain w1))
       \<and> (\<forall>a x. shape (chain w1) a = Some x \<longrightarrow> shape (env_run es (chain w1)) a = Some x)"
      using chain_steps_keep [OF env_run_steps r1] .
    then have "registry_ok (w1\<lparr>chain := env_run es (chain w1)\<rparr>)"
      using registry_ok_keep [OF g1] by simp
    with k show ?case by simp
  qed
  then show ?thesis by simp
qed

theorem session_registry_ok_witness:
  "\<exists>w'. hardhat_run [] [] ''npx hardhat deploy'' example_hre = Inr w' \<and> registry_ok w'"
proof -
  have "\<exists>w'. hardhat_run [] [] ''npx hardhat deploy'' example_hre = Inr w'"
    by (simp add: hardhat_run_def parse_cli_def shell_words_def select_network_def requested_tags_def
                  script_selected_def keeper_test_decl_def keeper_simulation_decl_def
                  deploy_keeper_simulation_def deploy_set_log_level_def deploy_network_name_def
                  deployments_get_def hh_deploy_def
                  hh_reusable_def create_contract_def model_simps)
  then obtain w' where run: "hardhat_run [] [] ''npx hardhat deploy'' example_hre = Inr w'" by blast
  have s: "session example_hre w'" by (rule session.command [OF session.start run])
  have r: "reachable_chain (chain example_hre)"
    by (simp add: example_hre_def example_chain_reachable)
  have g: "registry_ok example_hre"
    by (simp add: registry_ok_def model_simps shape_def)
  show ?thesis using run session_registry_ok [OF s r g] by blast
qed

end
